theory Spec2Isabelle
  imports Main "HOL-Library.Word"
begin

unbundle bit_operations_syntax

section \<open>The NaturalCapitalFhe contract\<close>

text \<open>
  A shallow embedding of the Solidity contract \<open>NaturalCapitalFhe\<close> (the contract text that
  follows the React component in \<open>src/frontend/web/src/App.tsx\<close>). Storage is a record, a
  contract function is a HOL function from the storage and the transaction environment to
  \<open>error + contract_state\<close>: \<open>Inl\<close> is a revert (the EVM then discards every write of the
  call), \<open>Inr\<close> is the storage after a successful call.
\<close>

subsection \<open>Value types\<close>

type_synonym uint256 = "256 word"
type_synonym uint32 = "32 word"
type_synonym address = "160 word"
type_synonym bytes32 = "256 word"
type_synonym bytes = "8 word list"

text \<open>\<open>euint32\<close> is a user-defined value type over \<open>bytes32\<close>: an opaque ciphertext handle.\<close>

type_synonym euint32 = bytes32

record AssetData =
  encryptedArea :: euint32
  encryptedHealthIndex :: euint32
  encryptedCarbonSequestration :: euint32
  encryptedBiodiversityIndex :: euint32
  ownerAddress :: address

record DecryptionContext =
  batchId :: uint256
  stateHash :: bytes32
  processed :: bool

datatype event =
    OwnershipTransferred address address
  | ProviderAdded address
  | ProviderRemoved address
  | Paused address
  | Unpaused address
  | CooldownSecondsChanged uint256 uint256
  | BatchOpened uint256
  | BatchClosed uint256
  | AssetSubmitted address uint256 uint256
  | DecryptionRequested uint256 uint256
  | DecryptionCompleted uint256 uint256 uint256 uint256

text \<open>
  The custom errors of the contract (\<open>InvalidProof\<close> is declared and never raised), the
  \<open>require\<close> of \<open>setCooldownSeconds\<close>, the arithmetic panic of checked \<open>uint256\<close>
  arithmetic (Solidity 0.8), the revert of \<open>FHE.checkSignatures\<close> and the revert of
  \<open>abi.decode\<close> on a malformed payload.
\<close>

datatype error =
    NotOwner
  | NotProvider
  | PausedError
  | CooldownActive
  | BatchClosedOrInvalid
  | InvalidBatchId
  | ReplayAttempt
  | StateMismatch
  | InvalidProof
  | RequireFailed string
  | PanicOverflow
  | CheckSignaturesReverted
  | AbiDecodeReverted

subsection \<open>Storage\<close>

text \<open>
  A Solidity mapping is total: a key that was never written reads as the zero value. The two
  mappings that hold structs are kept as partial maps, so that "was written" stays visible,
  and are read through \<open>asset_at\<close> and \<open>context_at\<close>, which give the zero struct for an
  absent key, as the EVM does. \<open>events\<close> is the log of the events emitted so far.
\<close>

record contract_state =
  owner :: address
  isProvider :: "address \<Rightarrow> bool"
  paused :: bool
  cooldownSeconds :: uint256
  lastSubmissionTime :: "address \<Rightarrow> uint256"
  lastDecryptionRequestTime :: "address \<Rightarrow> uint256"
  currentBatchId :: uint256
  isBatchOpen :: "uint256 \<Rightarrow> bool"
  assetCountInBatch :: "uint256 \<Rightarrow> uint256"
  batchAssets :: "uint256 \<Rightarrow> uint256 \<rightharpoonup> AssetData"
  decryptionContexts :: "uint256 \<rightharpoonup> DecryptionContext"
  events :: "event list"

definition zeroAsset :: AssetData where
  "zeroAsset = \<lparr>encryptedArea = 0, encryptedHealthIndex = 0,
     encryptedCarbonSequestration = 0, encryptedBiodiversityIndex = 0, ownerAddress = 0\<rparr>"

definition zeroContext :: DecryptionContext where
  "zeroContext = \<lparr>batchId = 0, stateHash = 0, processed = False\<rparr>"

definition asset_at :: "contract_state \<Rightarrow> uint256 \<Rightarrow> uint256 \<Rightarrow> AssetData" where
  "asset_at s b i = (case batchAssets s b i of None \<Rightarrow> zeroAsset | Some a \<Rightarrow> a)"

definition context_at :: "contract_state \<Rightarrow> uint256 \<Rightarrow> DecryptionContext" where
  "context_at s r = (case decryptionContexts s r of None \<Rightarrow> zeroContext | Some c \<Rightarrow> c)"

subsection \<open>The environment of a call\<close>

text \<open>
  \<open>msg.sender\<close> and \<open>block.timestamp\<close> of the transaction, and the request id that
  \<open>FHE.requestDecryption\<close> returns when the transaction calls it (the id is chosen by the
  oracle library, not by the contract).
\<close>

record tx_env =
  msg_sender :: address
  block_timestamp :: uint256
  oracle_requestId :: uint256

text \<open>
  The parts of the FHE library and of the chain that the contract calls and that are not in
  the repository are parameters: the initialisation test and the homomorphic addition on
  handles, the signature check of the oracle, \<open>keccak256\<close> of the ABI encoding of a handle
  list with an address, and the address of the deployed contract. \<open>FHE.toBytes32\<close> unwraps
  the handle and is the identity here.
\<close>

record fhevm =
  FHE_isInitialized :: "euint32 \<Rightarrow> bool"
  FHE_add :: "euint32 \<Rightarrow> euint32 \<Rightarrow> euint32"
  FHE_checkSignatures :: "uint256 \<Rightarrow> bytes \<Rightarrow> bytes \<Rightarrow> bool"
  keccak256_abi_encode :: "bytes32 list \<times> address \<Rightarrow> bytes32"
  this_address :: address

subsection \<open>Checked arithmetic and ABI decoding\<close>

text \<open>Solidity 0.8 reverts with a panic when \<open>+\<close> or \<open>++\<close> leaves the range of \<open>uint256\<close>.\<close>

definition checked_add :: "uint256 \<Rightarrow> uint256 \<Rightarrow> uint256 option" where
  "checked_add a b = (if unat a + unat b < 2 ^ 256 then Some (a + b) else None)"

text \<open>
  \<open>abi.decode(cleartexts, (uint32, uint32))\<close>: two 32-byte big-endian words; the call
  reverts when the payload is shorter than 64 bytes or a word does not fit \<open>uint32\<close>.
\<close>

definition be_uint256 :: "bytes \<Rightarrow> uint256" where
  "be_uint256 bs = foldl (\<lambda>acc b. acc * 256 + ucast b) 0 bs"

definition abi_decode_uint32_pair :: "bytes \<Rightarrow> (uint32 \<times> uint32) option" where
  "abi_decode_uint32_pair bs =
     (if length bs < 64 then None
      else let w0 = be_uint256 (take 32 bs); w1 = be_uint256 (take 32 (drop 32 bs))
           in if w0 < 2 ^ 32 \<and> w1 < 2 ^ 32 then Some (ucast w0, ucast w1) else None)"

subsection \<open>Modifiers\<close>

text \<open>A modifier gives \<open>Some\<close> error when it reverts and \<open>None\<close> when the body may run.\<close>

definition onlyOwner :: "contract_state \<Rightarrow> tx_env \<Rightarrow> error option" where
  "onlyOwner s e = (if msg_sender e \<noteq> owner s then Some NotOwner else None)"

definition onlyProvider :: "contract_state \<Rightarrow> tx_env \<Rightarrow> error option" where
  "onlyProvider s e = (if \<not> isProvider s (msg_sender e) then Some NotProvider else None)"

definition whenNotPaused :: "contract_state \<Rightarrow> error option" where
  "whenNotPaused s = (if paused s then Some PausedError else None)"

definition respectCooldown ::
  "contract_state \<Rightarrow> tx_env \<Rightarrow> address \<Rightarrow> (address \<Rightarrow> uint256) \<Rightarrow> error option" where
  "respectCooldown s e a lastTime =
     (case checked_add (lastTime a) (cooldownSeconds s) of
        None \<Rightarrow> Some PanicOverflow
      | Some t \<Rightarrow> if block_timestamp e < t then Some CooldownActive else None)"

subsection \<open>Constructor and administration\<close>

definition constructor :: "address \<Rightarrow> contract_state" where
  "constructor deployer =
     \<lparr>owner = deployer,
      isProvider = (\<lambda>_. False),
      paused = False,
      cooldownSeconds = 60,
      lastSubmissionTime = (\<lambda>_. 0),
      lastDecryptionRequestTime = (\<lambda>_. 0),
      currentBatchId = 1,
      isBatchOpen = (\<lambda>_. False)(1 := True),
      assetCountInBatch = (\<lambda>_. 0),
      batchAssets = (\<lambda>_. Map.empty),
      decryptionContexts = Map.empty,
      events = [OwnershipTransferred 0 deployer, BatchOpened 1]\<rparr>"

definition emit :: "event \<Rightarrow> contract_state \<Rightarrow> contract_state" where
  "emit ev s = s\<lparr>events := events s @ [ev]\<rparr>"

definition transferOwnership :: "contract_state \<Rightarrow> tx_env \<Rightarrow> address \<Rightarrow> error + contract_state" where
  "transferOwnership s e newOwner =
     (case onlyOwner s e of Some err \<Rightarrow> Inl err
      | None \<Rightarrow> Inr ((emit (OwnershipTransferred (owner s) newOwner) s)\<lparr>owner := newOwner\<rparr>))"

definition addProvider :: "contract_state \<Rightarrow> tx_env \<Rightarrow> address \<Rightarrow> error + contract_state" where
  "addProvider s e provider =
     (case onlyOwner s e of Some err \<Rightarrow> Inl err
      | None \<Rightarrow> Inr (emit (ProviderAdded provider) (s\<lparr>isProvider := (isProvider s)(provider := True)\<rparr>)))"

definition removeProvider :: "contract_state \<Rightarrow> tx_env \<Rightarrow> address \<Rightarrow> error + contract_state" where
  "removeProvider s e provider =
     (case onlyOwner s e of Some err \<Rightarrow> Inl err
      | None \<Rightarrow> Inr (emit (ProviderRemoved provider) (s\<lparr>isProvider := (isProvider s)(provider := False)\<rparr>)))"

definition setPaused :: "contract_state \<Rightarrow> tx_env \<Rightarrow> bool \<Rightarrow> error + contract_state" where
  "setPaused s e p =
     (case onlyOwner s e of Some err \<Rightarrow> Inl err
      | None \<Rightarrow>
          if p then Inr (emit (Paused (msg_sender e)) (s\<lparr>paused := True\<rparr>))
          else Inr (emit (Unpaused (msg_sender e)) (s\<lparr>paused := False\<rparr>)))"

definition setCooldownSeconds :: "contract_state \<Rightarrow> tx_env \<Rightarrow> uint256 \<Rightarrow> error + contract_state" where
  "setCooldownSeconds s e newCooldownSeconds =
     (case onlyOwner s e of Some err \<Rightarrow> Inl err
      | None \<Rightarrow>
          if \<not> newCooldownSeconds > 0 then Inl (RequireFailed ''Cooldown must be positive'')
          else let oldCooldown = cooldownSeconds s
               in Inr (emit (CooldownSecondsChanged oldCooldown newCooldownSeconds)
                         (s\<lparr>cooldownSeconds := newCooldownSeconds\<rparr>)))"

subsection \<open>Batches and assets\<close>

definition openNewBatch :: "contract_state \<Rightarrow> tx_env \<Rightarrow> error + contract_state" where
  "openNewBatch s e =
     (case onlyOwner s e of Some err \<Rightarrow> Inl err
      | None \<Rightarrow>
     (case whenNotPaused s of Some err \<Rightarrow> Inl err
      | None \<Rightarrow>
     (case checked_add (currentBatchId s) 1 of None \<Rightarrow> Inl PanicOverflow
      | Some b \<Rightarrow>
          Inr (emit (BatchOpened b)
                 (s\<lparr>currentBatchId := b, isBatchOpen := (isBatchOpen s)(b := True)\<rparr>)))))"

definition closeBatch :: "contract_state \<Rightarrow> tx_env \<Rightarrow> uint256 \<Rightarrow> error + contract_state" where
  "closeBatch s e b =
     (case onlyOwner s e of Some err \<Rightarrow> Inl err
      | None \<Rightarrow>
          if \<not> isBatchOpen s b then Inl BatchClosedOrInvalid
          else Inr (emit (BatchClosed b) (s\<lparr>isBatchOpen := (isBatchOpen s)(b := False)\<rparr>)))"

definition submitAsset ::
  "contract_state \<Rightarrow> tx_env \<Rightarrow> euint32 \<Rightarrow> euint32 \<Rightarrow> euint32 \<Rightarrow> euint32 \<Rightarrow> error + contract_state" where
  "submitAsset s e area health carbon biodiversity =
     (case onlyProvider s e of Some err \<Rightarrow> Inl err
      | None \<Rightarrow>
     (case whenNotPaused s of Some err \<Rightarrow> Inl err
      | None \<Rightarrow>
     (case respectCooldown s e (msg_sender e) (lastSubmissionTime s) of Some err \<Rightarrow> Inl err
      | None \<Rightarrow>
          if \<not> isBatchOpen s (currentBatchId s) then Inl BatchClosedOrInvalid
          else
            let cur = currentBatchId s;
                assetIndex = assetCountInBatch s cur;
                asset = \<lparr>encryptedArea = area, encryptedHealthIndex = health,
                         encryptedCarbonSequestration = carbon,
                         encryptedBiodiversityIndex = biodiversity,
                         ownerAddress = msg_sender e\<rparr>
            in (case checked_add assetIndex 1 of None \<Rightarrow> Inl PanicOverflow
                | Some n \<Rightarrow>
                    Inr (emit (AssetSubmitted (msg_sender e) cur assetIndex)
                           (s\<lparr>batchAssets := (batchAssets s)(cur := (batchAssets s cur)(assetIndex \<mapsto> asset)),
                              assetCountInBatch := (assetCountInBatch s)(cur := n),
                              lastSubmissionTime := (lastSubmissionTime s)(msg_sender e := block_timestamp e)\<rparr>))))))"

subsection \<open>Aggregation\<close>

text \<open>
  One iteration of the loop that both \<open>requestBatchSummaryDecryption\<close> and \<open>myCallback\<close>
  run: the accumulators are (totalEncryptedArea, totalEncryptedCarbonSequestration,
  initialized). The branch tests the area accumulator, not the flag.
\<close>

definition loop_body :: "fhevm \<Rightarrow> AssetData \<Rightarrow> euint32 \<times> euint32 \<times> bool \<Rightarrow> euint32 \<times> euint32 \<times> bool" where
  "loop_body F asset acc =
     (case acc of (totalArea, totalCarbon, initialized) \<Rightarrow>
        if \<not> FHE_isInitialized F totalArea
        then (encryptedArea asset, encryptedCarbonSequestration asset, True)
        else (FHE_add F totalArea (encryptedArea asset),
              FHE_add F totalCarbon (encryptedCarbonSequestration asset),
              initialized))"

text \<open>
  \<open>for (uint256 i = 0; i < assetCountInBatch[batchId]; i++)\<close>, entered at counter \<open>i\<close>;
  \<open>n\<close> is the asset count, which the loop does not write. \<open>i++\<close> cannot overflow, since
  \<open>i < n\<close> when it runs.
\<close>

function aggregate_loop ::
  "fhevm \<Rightarrow> (uint256 \<Rightarrow> AssetData) \<Rightarrow> uint256 \<Rightarrow> uint256 \<Rightarrow> euint32 \<times> euint32 \<times> bool
     \<Rightarrow> euint32 \<times> euint32 \<times> bool" where
  "aggregate_loop F assets n i acc =
     (if i < n then aggregate_loop F assets n (i + 1) (loop_body F (assets i) acc) else acc)"
  by pat_completeness auto
termination
proof (relation "measure (\<lambda>(F, assets, n, i, acc). unat n - unat i)")
  show "wf (measure (\<lambda>(F, assets, n, i, acc). unat n - unat i))"
    by simp
next
  fix F :: fhevm and assets :: "uint256 \<Rightarrow> AssetData" and n i :: uint256
    and acc :: "euint32 \<times> euint32 \<times> bool"
  assume lt: "i < n"
  then have below: "unat i < unat n"
    by (simp add: word_less_nat_alt)
  have "unat n < 2 ^ 256"
    using unsigned_less [of n, where ?'a = nat] by simp
  with below have "unat i + unat (1 :: uint256) < 2 ^ 256"
    by simp
  then have "unat (i + 1) = Suc (unat i)"
    using unat_add_lem [of i 1] by simp
  with below have "unat n - unat (i + 1) < unat n - unat i"
    by simp
  then show "((F, assets, n, i + 1, loop_body F (assets i) acc), (F, assets, n, i, acc))
      \<in> measure (\<lambda>(F, assets, n, i, acc). unat n - unat i)"
    by simp
qed

declare aggregate_loop.simps [simp del]

text \<open>The locals \<open>totalEncryptedArea\<close>, \<open>totalEncryptedCarbonSequestration\<close> and
  \<open>initialized\<close> start as zero handles and \<open>false\<close>.\<close>

definition aggregate :: "fhevm \<Rightarrow> contract_state \<Rightarrow> uint256 \<Rightarrow> euint32 \<times> euint32 \<times> bool" where
  "aggregate F s b = aggregate_loop F (asset_at s b) (assetCountInBatch s b) 0 (0, 0, False)"

definition hashCiphertexts :: "fhevm \<Rightarrow> bytes32 list \<Rightarrow> bytes32" where
  "hashCiphertexts F cts = keccak256_abi_encode F (cts, this_address F)"

subsection \<open>Decryption request and callback\<close>

definition requestBatchSummaryDecryption ::
  "fhevm \<Rightarrow> contract_state \<Rightarrow> tx_env \<Rightarrow> uint256 \<Rightarrow> error + contract_state" where
  "requestBatchSummaryDecryption F s e b =
     (case whenNotPaused s of Some err \<Rightarrow> Inl err
      | None \<Rightarrow>
     (case respectCooldown s e (msg_sender e) (lastDecryptionRequestTime s) of Some err \<Rightarrow> Inl err
      | None \<Rightarrow>
          if assetCountInBatch s b = 0 then Inl InvalidBatchId
          else
            (case aggregate F s b of (totalArea, totalCarbon, initialized) \<Rightarrow>
               if \<not> initialized then Inl InvalidBatchId
               else
                 let cts = [totalArea, totalCarbon];
                     h = hashCiphertexts F cts;
                     requestId = oracle_requestId e
                 in Inr (emit (DecryptionRequested requestId b)
                          (s\<lparr>decryptionContexts := (decryptionContexts s)
                                (requestId \<mapsto> \<lparr>batchId = b, stateHash = h, processed = False\<rparr>),
                             lastDecryptionRequestTime :=
                                (lastDecryptionRequestTime s)(msg_sender e := block_timestamp e)\<rparr>)))))"

definition myCallback ::
  "fhevm \<Rightarrow> contract_state \<Rightarrow> tx_env \<Rightarrow> uint256 \<Rightarrow> bytes \<Rightarrow> bytes \<Rightarrow> error + contract_state" where
  "myCallback F s e requestId cleartexts proof =
     (if processed (context_at s requestId) then Inl ReplayAttempt
      else
        let ctx = context_at s requestId; b = batchId ctx
        in (case aggregate F s b of (totalArea, totalCarbon, initialized) \<Rightarrow>
              if \<not> initialized then Inl InvalidBatchId
              else
                let currentCts = [totalArea, totalCarbon];
                    currentHash = hashCiphertexts F currentCts
                in if currentHash \<noteq> stateHash ctx then Inl StateMismatch
                   else if \<not> FHE_checkSignatures F requestId cleartexts proof
                   then Inl CheckSignaturesReverted
                   else (case abi_decode_uint32_pair cleartexts of None \<Rightarrow> Inl AbiDecodeReverted
                         | Some (totalAreaCleartext, totalCarbonCleartext) \<Rightarrow>
                             Inr (emit (DecryptionCompleted requestId b
                                          (ucast totalAreaCleartext) (ucast totalCarbonCleartext))
                                    (s\<lparr>decryptionContexts := (decryptionContexts s)
                                          (requestId \<mapsto> ctx\<lparr>processed := True\<rparr>)\<rparr>)))))"

subsection \<open>Transactions and runs\<close>

datatype call =
    TransferOwnership address
  | AddProvider address
  | RemoveProvider address
  | SetPaused bool
  | SetCooldownSeconds uint256
  | OpenNewBatch
  | CloseBatch uint256
  | SubmitAsset euint32 euint32 euint32 euint32
  | RequestBatchSummaryDecryption uint256
  | MyCallback uint256 bytes bytes

fun dispatch :: "fhevm \<Rightarrow> contract_state \<Rightarrow> tx_env \<Rightarrow> call \<Rightarrow> error + contract_state" where
  "dispatch F s e (TransferOwnership a) = transferOwnership s e a"
| "dispatch F s e (AddProvider a) = addProvider s e a"
| "dispatch F s e (RemoveProvider a) = removeProvider s e a"
| "dispatch F s e (SetPaused p) = setPaused s e p"
| "dispatch F s e (SetCooldownSeconds n) = setCooldownSeconds s e n"
| "dispatch F s e OpenNewBatch = openNewBatch s e"
| "dispatch F s e (CloseBatch b) = closeBatch s e b"
| "dispatch F s e (SubmitAsset a h c d) = submitAsset s e a h c d"
| "dispatch F s e (RequestBatchSummaryDecryption b) = requestBatchSummaryDecryption F s e b"
| "dispatch F s e (MyCallback r c p) = myCallback F s e r c p"

text \<open>A transaction that reverts leaves the storage and the log as they were.\<close>

definition transact :: "fhevm \<Rightarrow> contract_state \<Rightarrow> tx_env \<times> call \<Rightarrow> contract_state" where
  "transact F s tx = (case dispatch F s (fst tx) (snd tx) of Inl err \<Rightarrow> s | Inr s' \<Rightarrow> s')"

definition run :: "fhevm \<Rightarrow> contract_state \<Rightarrow> (tx_env \<times> call) list \<Rightarrow> contract_state" where
  "run F s txs = foldl (transact F) s txs"

subsection \<open>Intermediate values of the callback\<close>

text \<open>
  The values that \<open>requestBatchSummaryDecryption\<close> and \<open>myCallback\<close> compute from the loop:
  the array \<open>cts\<close> / \<open>currentCts\<close> of the two aggregated handles, its hash, and the
  \<open>initialized\<close> flag.
\<close>

definition currentCts :: "fhevm \<Rightarrow> contract_state \<Rightarrow> uint256 \<Rightarrow> bytes32 list" where
  "currentCts F s b =
     (case aggregate F s b of (totalArea, totalCarbon, initialized) \<Rightarrow> [totalArea, totalCarbon])"

definition currentHash :: "fhevm \<Rightarrow> contract_state \<Rightarrow> uint256 \<Rightarrow> bytes32" where
  "currentHash F s b = hashCiphertexts F (currentCts F s b)"

definition loop_initialized :: "fhevm \<Rightarrow> contract_state \<Rightarrow> uint256 \<Rightarrow> bool" where
  "loop_initialized F s b =
     (case aggregate F s b of (totalArea, totalCarbon, initialized) \<Rightarrow> initialized)"

text \<open>
  \<open>issues_request r tx\<close>: the transaction calls \<open>requestBatchSummaryDecryption\<close> and the
  oracle library hands out the request id \<open>r\<close> in it. The library is expected never to hand
  out an id twice; the contract does not check it.
\<close>

fun issues_request :: "uint256 \<Rightarrow> tx_env \<times> call \<Rightarrow> bool" where
  "issues_request r (e, RequestBatchSummaryDecryption b) = (oracle_requestId e = r)"
| "issues_request r (e, _) = False"

subsection \<open>The aggregate as the specification words it\<close>

text \<open>
  The pairs (area handle, carbon handle) of the assets of a batch at the indices
  \<open>0..assetCount-1\<close>, in ascending order, and the fold of the specification over such a
  list: undefined on the empty list, otherwise the first pair seeds both accumulators and
  each later pair is combined with them by the homomorphic addition. This second definition
  is written from the specification, to be compared with \<open>aggregate\<close>, which is the loop of
  the contract.
\<close>

definition batch_pairs :: "contract_state \<Rightarrow> uint256 \<Rightarrow> (euint32 \<times> euint32) list" where
  "batch_pairs s b =
     map (\<lambda>k. (encryptedArea (asset_at s b (of_nat k)),
                encryptedCarbonSequestration (asset_at s b (of_nat k))))
       [0..<unat (assetCountInBatch s b)]"

fun spec_aggregate :: "fhevm \<Rightarrow> (euint32 \<times> euint32) list \<Rightarrow> (euint32 \<times> euint32) option" where
  "spec_aggregate F [] = None"
| "spec_aggregate F (x # xs) =
     Some (foldl (\<lambda>(totalArea, totalCarbon) (area, carbon).
                    (FHE_add F totalArea area, FHE_add F totalCarbon carbon)) x xs)"

subsection \<open>Well-formed batch tables\<close>

text \<open>
  The invariant of the states that the constructor and the contract functions produce: the
  current batch id is at least 1, open batches and batches with assets lie in the range
  \<open>1..currentBatchId\<close>, and the stored records of a batch are those below its asset count.
\<close>

definition batches_wf :: "contract_state \<Rightarrow> bool" where
  "batches_wf s \<longleftrightarrow>
     1 \<le> currentBatchId s \<and>
     (\<forall>b. isBatchOpen s b \<longrightarrow> b \<le> currentBatchId s) \<and>
     (\<forall>b. assetCountInBatch s b \<noteq> 0 \<longrightarrow> 1 \<le> b \<and> b \<le> currentBatchId s) \<and>
     (\<forall>b i. batchAssets s b i \<noteq> None \<longleftrightarrow> i < assetCountInBatch s b)"

subsection \<open>A concrete instance\<close>

text \<open>
  An instance of the library parameters and three callers (the deployer 1, a provider 2 and
  a third party 3), on which the model is run: a handle is initialised when it is not zero,
  as in the FHE library; the addition (bitwise or, which keeps initialised handles
  initialised) and the hash are small stand-ins for the opaque operations.
\<close>

definition toy_fhevm :: fhevm where
  "toy_fhevm =
     \<lparr>FHE_isInitialized = (\<lambda>h. h \<noteq> 0),
      FHE_add = (\<lambda>x y. x OR y),
      FHE_checkSignatures = (\<lambda>r cleartexts prf. prf = [1]),
      keccak256_abi_encode = (\<lambda>(cts, a). foldl (\<lambda>h x. h * 31 + x) (ucast a) cts),
      this_address = 42\<rparr>"

definition owner_env :: "uint256 \<Rightarrow> tx_env" where
  "owner_env t = \<lparr>msg_sender = 1, block_timestamp = t, oracle_requestId = 0\<rparr>"

definition provider_env :: "uint256 \<Rightarrow> tx_env" where
  "provider_env t = \<lparr>msg_sender = 2, block_timestamp = t, oracle_requestId = 0\<rparr>"

definition user_env :: "uint256 \<Rightarrow> uint256 \<Rightarrow> tx_env" where
  "user_env t r = \<lparr>msg_sender = 3, block_timestamp = t, oracle_requestId = r\<rparr>"

text \<open>
  A cleartext payload that decodes to the totals 5 and 7, and the runs used below: a batch
  with one asset and a pending decryption request 9; the same after the callback was
  accepted; the same with a second asset submitted after the request; the same with the
  contract paused; a batch of two assets whose first carries the zero handle as its area;
  and a batch with one such asset and a pending request 9, then with a second such asset
  submitted after the request.
\<close>

definition cleartexts_5_7 :: bytes where
  "cleartexts_5_7 = [0, 0, 0, 0, 0, 0, 0, 0, 0, 0, 0, 0, 0, 0, 0, 0, 0, 0, 0, 0, 0, 0, 0, 0, 0, 0, 0, 0, 0, 0, 0, 5, 0, 0, 0, 0, 0, 0, 0, 0, 0, 0, 0, 0, 0, 0, 0, 0, 0, 0, 0, 0, 0, 0, 0, 0, 0, 0, 0, 0, 0, 0, 0, 7]"

definition pending_txs :: "(tx_env \<times> call) list" where
  "pending_txs = [(owner_env 20, AddProvider 2), (provider_env 100, SubmitAsset 5 6 7 8),
     (user_env 100 9, RequestBatchSummaryDecryption 1)]"

definition finalized_txs :: "(tx_env \<times> call) list" where
  "finalized_txs = pending_txs @ [(user_env 200 0, MyCallback 9 cleartexts_5_7 [1])]"

definition stale_txs :: "(tx_env \<times> call) list" where
  "stale_txs = pending_txs @ [(provider_env 200, SubmitAsset 2 1 8 1)]"

definition paused_txs :: "(tx_env \<times> call) list" where
  "paused_txs = pending_txs @ [(owner_env 150, SetPaused True)]"

definition reseed_txs :: "(tx_env \<times> call) list" where
  "reseed_txs = [(owner_env 20, AddProvider 2), (provider_env 100, SubmitAsset 0 1 5 1),
     (provider_env 200, SubmitAsset 7 1 9 1)]"

definition zero_pending_txs :: "(tx_env \<times> call) list" where
  "zero_pending_txs = [(owner_env 20, AddProvider 2), (provider_env 100, SubmitAsset 0 1 5 1),
     (user_env 100 9, RequestBatchSummaryDecryption 1)]"

definition zero_stale_txs :: "(tx_env \<times> call) list" where
  "zero_stale_txs = zero_pending_txs @ [(provider_env 200, SubmitAsset 0 1 5 1)]"

section \<open>Lemmas\<close>

lemma checked_add_SomeD:
  assumes "checked_add a b = Some c"
  shows "c = a + b" and "unat c = unat a + unat b"
proof -
  from assms have lt: "unat a + unat b < 2 ^ 256" and c: "c = a + b"
    by (auto simp: checked_add_def split: if_splits)
  show "c = a + b" by (rule c)
  from lt show "unat c = unat a + unat b"
    using unat_add_lem [of a b] by (simp add: c)
qed

lemma checked_inc_less:
  assumes "checked_add a 1 = Some c"
  shows "a < c"
  using checked_add_SomeD(2) [OF assms] by (simp add: word_less_nat_alt)

lemma aggregate_loop_upt:
  "i \<le> n \<Longrightarrow> aggregate_loop F assets n i acc =
     foldl (\<lambda>a k. loop_body F (assets (of_nat k)) a) acc [unat i..<unat n]"
proof (induction F assets n i acc rule: aggregate_loop.induct)
  case (1 F assets n i acc)
  show ?case
  proof (cases "i < n")
    case True
    then have below: "unat i < unat n"
      by (simp add: word_less_nat_alt)
    have "unat n < 2 ^ 256"
      using unsigned_less [of n, where ?'a = nat] by simp
    with below have "unat i + unat (1 :: uint256) < 2 ^ 256"
      by simp
    then have suc: "unat (i + 1) = Suc (unat i)"
      using unat_add_lem [of i 1] by simp
    with below have le: "i + 1 \<le> n"
      by (simp add: word_le_nat_alt)
    have "aggregate_loop F assets n i acc =
        aggregate_loop F assets n (i + 1) (loop_body F (assets i) acc)"
      using True by (subst aggregate_loop.simps) simp
    also have "\<dots> = foldl (\<lambda>a k. loop_body F (assets (of_nat k)) a)
        (loop_body F (assets i) acc) [Suc (unat i)..<unat n]"
      using "1.IH" [OF True le] by (simp add: suc)
    also have "\<dots> = foldl (\<lambda>a k. loop_body F (assets (of_nat k)) a) acc [unat i..<unat n]"
      using below by (simp add: upt_conv_Cons)
    finally show ?thesis .
  next
    case False
    with "1.prems" have "i = n" by simp
    then show ?thesis
      by (subst aggregate_loop.simps) simp
  qed
qed

lemmas op_defs = transferOwnership_def addProvider_def removeProvider_def setPaused_def
  setCooldownSeconds_def openNewBatch_def closeBatch_def submitAsset_def
  requestBatchSummaryDecryption_def myCallback_def onlyOwner_def onlyProvider_def
  whenNotPaused_def emit_def Let_def

lemma dispatch_currentBatchId:
  assumes "dispatch F s e c = Inr s'"
  shows "currentBatchId s \<le> currentBatchId s'"
  using assms
  by (cases c) (auto simp: op_defs dest: checked_inc_less split: option.splits if_splits prod.splits)

lemma dispatch_isBatchOpen:
  assumes "dispatch F s e c = Inr s'" and "isBatchOpen s' b"
  shows "isBatchOpen s b \<or> (currentBatchId s < b \<and> b = currentBatchId s')"
  using assms
  by (cases c) (auto simp: op_defs dest: checked_inc_less split: option.splits if_splits prod.splits)

lemma dispatch_assetCountInBatch:
  assumes "dispatch F s e c = Inr s'" and "assetCountInBatch s' b \<noteq> assetCountInBatch s b"
  shows "b = currentBatchId s \<and> isBatchOpen s b \<and> currentBatchId s' = currentBatchId s
    \<and> checked_add (assetCountInBatch s b) 1 = Some (assetCountInBatch s' b)"
  using assms
  by (cases c) (auto simp: op_defs split: option.splits if_splits prod.splits)

lemma checked_inc_less_iff:
  assumes "checked_add n 1 = Some m"
  shows "i < m \<longleftrightarrow> i < n \<or> i = n"
proof -
  have "unat m = Suc (unat n)"
    using checked_add_SomeD(2) [OF assms] by simp
  then show ?thesis
    by (auto simp: word_less_nat_alt word_unat_eq_iff)
qed

lemma dispatch_batchAssets_dom:
  assumes "dispatch F s e c = Inr s'"
    and "\<forall>b i. batchAssets s b i \<noteq> None \<longleftrightarrow> i < assetCountInBatch s b"
  shows "batchAssets s' b i \<noteq> None \<longleftrightarrow> i < assetCountInBatch s' b"
  using assms(1) assms(2) [rule_format, of b i]
  by (cases c)
     (auto simp: op_defs checked_inc_less_iff split: option.splits if_splits prod.splits)

lemma dispatch_batchAssets_kept:
  assumes "dispatch F s e c = Inr s'"
    and "\<forall>b i. batchAssets s b i \<noteq> None \<longleftrightarrow> i < assetCountInBatch s b"
    and "batchAssets s b i = Some a"
  shows "batchAssets s' b i = Some a"
  using assms(1,3) assms(2) [rule_format, of b i]
  by (cases c)
     (auto simp: op_defs split: option.splits if_splits prod.splits)

lemma batches_wf_constructor: "batches_wf (constructor d)"
  by (simp add: batches_wf_def constructor_def)

lemma batches_wf_dispatch:
  assumes step: "dispatch F s e c = Inr s'" and wf: "batches_wf s"
  shows "batches_wf s'"
proof -
  note mono = dispatch_currentBatchId [OF step]
  have one: "1 \<le> currentBatchId s'"
    using wf mono by (auto simp: batches_wf_def)
  have opn: "b \<le> currentBatchId s'" if "isBatchOpen s' b" for b
    using dispatch_isBatchOpen [OF step that] wf mono by (auto simp: batches_wf_def)
  have cnt: "1 \<le> b \<and> b \<le> currentBatchId s'" if "assetCountInBatch s' b \<noteq> 0" for b
  proof (cases "assetCountInBatch s' b = assetCountInBatch s b")
    case True
    with that wf mono show ?thesis by (auto simp: batches_wf_def)
  next
    case False
    from dispatch_assetCountInBatch [OF step False] wf mono show ?thesis
      by (auto simp: batches_wf_def)
  qed
  have dom: "batchAssets s' b i \<noteq> None \<longleftrightarrow> i < assetCountInBatch s' b" for b i
    using dispatch_batchAssets_dom [OF step] wf by (simp add: batches_wf_def)
  from one opn cnt dom show ?thesis
    unfolding batches_wf_def by blast
qed

lemma batches_wf_transact: "batches_wf s \<Longrightarrow> batches_wf (transact F s tx)"
  by (auto simp: transact_def split: sum.splits dest: batches_wf_dispatch)

lemma batches_wf_run: "batches_wf s \<Longrightarrow> batches_wf (run F s txs)"
  unfolding run_def by (induction txs arbitrary: s) (simp_all add: batches_wf_transact)

lemma batches_wf_reachable: "batches_wf (run F (constructor d) txs)"
  by (rule batches_wf_run) (rule batches_wf_constructor)

lemma aggregate_empty:
  "assetCountInBatch s b = 0 \<Longrightarrow> aggregate F s b = (0, 0, False)"
  unfolding aggregate_def by (subst aggregate_loop.simps) simp

lemma transact_Inl: "dispatch F s e c = Inl err \<Longrightarrow> transact F s (e, c) = s"
  by (simp add: transact_def)

lemma run_Nil: "run F s [] = s"
  by (simp add: run_def)

lemma run_Cons: "run F s (tx # txs) = run F (transact F s tx) txs"
  by (simp add: run_def)

lemma closed_batch_transact:
  assumes "\<not> isBatchOpen s b" and "b \<le> currentBatchId s"
  shows "\<not> isBatchOpen (transact F s tx) b \<and> b \<le> currentBatchId (transact F s tx)
     \<and> assetCountInBatch (transact F s tx) b = assetCountInBatch s b"
proof (cases "dispatch F s (fst tx) (snd tx)")
  case (Inl err)
  with assms show ?thesis by (simp add: transact_def)
next
  case (Inr s')
  have "\<not> isBatchOpen s' b"
    using dispatch_isBatchOpen [OF Inr, of b] assms by auto
  moreover have "b \<le> currentBatchId s'"
    using dispatch_currentBatchId [OF Inr] assms(2) by simp
  moreover have "assetCountInBatch s' b = assetCountInBatch s b"
    using dispatch_assetCountInBatch [OF Inr, of b] assms(1) by blast
  ultimately show ?thesis
    using Inr by (simp add: transact_def)
qed

lemma closed_batch_run:
  assumes "\<not> isBatchOpen s b" and "b \<le> currentBatchId s"
  shows "\<not> isBatchOpen (run F s txs) b \<and> b \<le> currentBatchId (run F s txs)
     \<and> assetCountInBatch (run F s txs) b = assetCountInBatch s b"
  using assms
proof (induction txs arbitrary: s)
  case Nil
  then show ?case by (simp add: run_Nil)
next
  case (Cons tx txs)
  from closed_batch_transact [OF Cons.prems, of F tx]
  have a: "\<not> isBatchOpen (transact F s tx) b" and b: "b \<le> currentBatchId (transact F s tx)"
    and c: "assetCountInBatch (transact F s tx) b = assetCountInBatch s b"
    by simp_all
  from Cons.IH [OF a b] c show ?case
    by (simp add: run_Cons)
qed

lemma superseded_batch_transact:
  assumes "b < currentBatchId s"
  shows "b < currentBatchId (transact F s tx)
     \<and> assetCountInBatch (transact F s tx) b = assetCountInBatch s b"
proof (cases "dispatch F s (fst tx) (snd tx)")
  case (Inl err)
  with assms show ?thesis by (simp add: transact_def)
next
  case (Inr s')
  have "b < currentBatchId s'"
    using dispatch_currentBatchId [OF Inr] assms by simp
  moreover have "assetCountInBatch s' b = assetCountInBatch s b"
    using dispatch_assetCountInBatch [OF Inr, of b] assms by auto
  ultimately show ?thesis
    using Inr by (simp add: transact_def)
qed

lemma superseded_batch_run:
  assumes "b < currentBatchId s"
  shows "b < currentBatchId (run F s txs)
     \<and> assetCountInBatch (run F s txs) b = assetCountInBatch s b"
  using assms
proof (induction txs arbitrary: s)
  case Nil
  then show ?case by (simp add: run_Nil)
next
  case (Cons tx txs)
  from superseded_batch_transact [OF Cons.prems, of F tx]
  have a: "b < currentBatchId (transact F s tx)"
    and c: "assetCountInBatch (transact F s tx) b = assetCountInBatch s b"
    by simp_all
  from Cons.IH [OF a] c show ?case
    by (simp add: run_Cons)
qed

lemmas eval_defs = op_defs constructor_def transact_def run_def checked_add_def
  respectCooldown_def owner_env_def provider_env_def user_env_def

lemma batches_wf_next_free:
  assumes "batches_wf s"
  shows "batchAssets s b (assetCountInBatch s b) = None"
proof -
  from assms have "batchAssets s b (assetCountInBatch s b) \<noteq> None
      \<longleftrightarrow> assetCountInBatch s b < assetCountInBatch s b"
    unfolding batches_wf_def by blast
  then show ?thesis by simp
qed

lemma batchAssets_kept_run:
  assumes "batches_wf s" and "batchAssets s b i = Some a"
  shows "batchAssets (run F s txs) b i = Some a"
  using assms
proof (induction txs arbitrary: s)
  case Nil
  then show ?case by (simp add: run_Nil)
next
  case (Cons tx txs)
  have kept: "batchAssets (transact F s tx) b i = Some a"
  proof (cases "dispatch F s (fst tx) (snd tx)")
    case (Inl err)
    with Cons.prems show ?thesis by (simp add: transact_def)
  next
    case (Inr s')
    from Cons.prems(1) have "\<forall>b i. batchAssets s b i \<noteq> None \<longleftrightarrow> i < assetCountInBatch s b"
      by (simp add: batches_wf_def)
    from dispatch_batchAssets_kept [OF Inr this Cons.prems(2)] Inr show ?thesis
      by (simp add: transact_def)
  qed
  from Cons.IH [OF batches_wf_transact [OF Cons.prems(1)] kept] show ?case
    by (simp add: run_Cons)
qed

lemma processed_context_dispatch:
  assumes "dispatch F s e c = Inr s'" and "decryptionContexts s r = Some ctx" and "processed ctx"
    and "\<not> issues_request r (e, c)"
  shows "decryptionContexts s' r = Some ctx"
  using assms
  by (cases c) (auto simp: op_defs context_at_def split: option.splits if_splits prod.splits)

lemma processed_context_run:
  assumes "decryptionContexts s r = Some ctx" and "processed ctx"
    and "\<forall>tx \<in> set txs. \<not> issues_request r tx"
  shows "decryptionContexts (run F s txs) r = Some ctx"
  using assms
proof (induction txs arbitrary: s)
  case Nil
  then show ?case by (simp add: run_Nil)
next
  case (Cons tx txs)
  obtain e c where tx: "tx = (e, c)" by (cases tx)
  have kept: "decryptionContexts (transact F s tx) r = Some ctx"
  proof (cases "dispatch F s e c")
    case (Inl err)
    with Cons.prems(1) show ?thesis by (simp add: transact_def tx)
  next
    case (Inr s')
    from Cons.prems(3) have "\<not> issues_request r (e, c)" by (simp add: tx)
    from processed_context_dispatch [OF Inr Cons.prems(1,2) this] Inr show ?thesis
      by (simp add: transact_def tx)
  qed
  from Cons.prems(3) have "\<forall>tx \<in> set txs. \<not> issues_request r tx" by simp
  from Cons.IH [OF kept Cons.prems(2) this] show ?case
    by (simp add: run_Cons)
qed

lemma myCallback_success_context:
  assumes "myCallback F s e r cleartexts prf = Inr s'"
  shows "decryptionContexts s' r = Some ((context_at s r)\<lparr>processed := True\<rparr>)"
  using assms
  by (auto simp: myCallback_def emit_def Let_def split: if_splits prod.splits option.splits)

lemmas eval_loop_defs = aggregate_loop.simps aggregate_def asset_at_def context_at_def
  hashCiphertexts_def toy_fhevm_def loop_body_def zeroContext_def zeroAsset_def
  abi_decode_uint32_pair_def be_uint256_def cleartexts_5_7_def pending_txs_def

lemma pending_state:
  "run toy_fhevm (constructor 1) pending_txs =
     \<lparr>owner = 1, isProvider = (\<lambda>_. False)(2 := True), paused = False, cooldownSeconds = 60,
      lastSubmissionTime = (\<lambda>_. 0)(2 := 100), lastDecryptionRequestTime = (\<lambda>_. 0)(3 := 100),
      currentBatchId = 1, isBatchOpen = (\<lambda>_. False)(1 := True),
      assetCountInBatch = (\<lambda>_. 0)(1 := 1),
      batchAssets = (\<lambda>_. Map.empty)(1 := [0 \<mapsto> \<lparr>encryptedArea = 5, encryptedHealthIndex = 6,
         encryptedCarbonSequestration = 7, encryptedBiodiversityIndex = 8, ownerAddress = 2\<rparr>]),
      decryptionContexts = [9 \<mapsto> \<lparr>batchId = 1, stateHash = 40524, processed = False\<rparr>],
      events = [OwnershipTransferred 0 1, BatchOpened 1, ProviderAdded 2, AssetSubmitted 2 1 0,
        DecryptionRequested 9 1]\<rparr>"
  by (simp add: eval_defs eval_loop_defs)

lemmas eval_all_defs = eval_defs eval_loop_defs currentCts_def currentHash_def
  loop_initialized_def finalized_txs_def stale_txs_def paused_txs_def

lemma respectCooldown_NoneD:
  assumes "respectCooldown s e a lastTime = None"
  shows "unat (lastTime a) + unat (cooldownSeconds s) \<le> unat (block_timestamp e)"
proof -
  from assms obtain t where t: "checked_add (lastTime a) (cooldownSeconds s) = Some t"
    and ge: "\<not> block_timestamp e < t"
    by (auto simp: respectCooldown_def split: option.splits if_splits)
  from ge have "unat t \<le> unat (block_timestamp e)"
    by (simp add: word_less_nat_alt)
  with checked_add_SomeD(2) [OF t] show ?thesis by simp
qed

lemma respectCooldown_early:
  assumes "unat (block_timestamp e) < unat (lastTime a) + unat (cooldownSeconds s)"
  shows "respectCooldown s e a lastTime \<noteq> None"
  using assms respectCooldown_NoneD [of s e a lastTime] by auto

lemma myCallback_checks:
  "myCallback F s e r cleartexts prf =
     (if processed (context_at s r) then Inl ReplayAttempt
      else if \<not> loop_initialized F s (batchId (context_at s r)) then Inl InvalidBatchId
      else if currentHash F s (batchId (context_at s r)) \<noteq> stateHash (context_at s r)
        then Inl StateMismatch
      else if \<not> FHE_checkSignatures F r cleartexts prf then Inl CheckSignaturesReverted
      else (case abi_decode_uint32_pair cleartexts of None \<Rightarrow> Inl AbiDecodeReverted
            | Some (a, c) \<Rightarrow>
                Inr (s\<lparr>decryptionContexts := (decryptionContexts s)
                          (r \<mapsto> (context_at s r)\<lparr>processed := True\<rparr>),
                       events := events s @
                          [DecryptionCompleted r (batchId (context_at s r)) (ucast a) (ucast c)]\<rparr>)))"
  by (simp add: myCallback_def loop_initialized_def currentHash_def currentCts_def emit_def Let_def
      split: prod.splits option.splits)

lemma aggregate_paused_update: "aggregate F (s\<lparr>paused := x\<rparr>) b = aggregate F s b"
proof -
  have "asset_at (s\<lparr>paused := x\<rparr>) b = asset_at s b"
    by (rule ext) (simp add: asset_at_def)
  then show ?thesis by (simp add: aggregate_def)
qed


lemma aggregate_upt:
  "aggregate F s b =
     foldl (\<lambda>a k. loop_body F (asset_at s b (of_nat k)) a) (0, 0, False)
       [0..<unat (assetCountInBatch s b)]"
  using aggregate_loop_upt [of 0 "assetCountInBatch s b" F "asset_at s b" "(0, 0, False)"]
  by (simp add: aggregate_def)





lemma upt_two: "[0..<2] = [0, Suc 0]"
  by (simp add: upt_rec numeral_2_eq_2)

section \<open>Properties of the contract\<close>

text \<open>
  Claim C7. Called by the owner, \<open>closeBatch b\<close> fails with \<open>BatchClosedOrInvalid\<close> exactly
  when \<open>b\<close> is not open (a batch that never existed and a batch that was closed read the
  same). In a state reached from the constructor, once \<open>closeBatch b\<close> has succeeded, every
  later sequence of transactions, by any callers, leaves \<open>b\<close> closed and its asset count as
  it was.
\<close>

theorem closeBatch_irreversible:
  "(msg_sender e = owner s \<longrightarrow>
      (closeBatch s e b = Inl BatchClosedOrInvalid \<longleftrightarrow> \<not> isBatchOpen s b)) \<and>
   (closeBatch (run F (constructor d) txs) e' b' = Inr s' \<longrightarrow>
      \<not> isBatchOpen (run F s' txs') b' \<and>
      assetCountInBatch (run F s' txs') b' = assetCountInBatch (run F (constructor d) txs) b')"
proof (intro conjI impI)
  assume "msg_sender e = owner s"
  then show "closeBatch s e b = Inl BatchClosedOrInvalid \<longleftrightarrow> \<not> isBatchOpen s b"
    by (simp add: closeBatch_def onlyOwner_def)
next
  let ?s = "run F (constructor d) txs"
  assume ok: "closeBatch ?s e' b' = Inr s'"
  then have was_open: "isBatchOpen ?s b'"
    and s': "s' = emit (BatchClosed b') (?s\<lparr>isBatchOpen := (isBatchOpen ?s)(b' := False)\<rparr>)"
    by (auto simp: closeBatch_def onlyOwner_def split: if_splits)
  have "b' \<le> currentBatchId ?s"
    using batches_wf_reachable [of F d txs] was_open by (simp add: batches_wf_def)
  then have le: "b' \<le> currentBatchId s'"
    by (simp add: s' emit_def)
  have closed: "\<not> isBatchOpen s' b'"
    by (simp add: s' emit_def)
  have cnt: "assetCountInBatch s' b' = assetCountInBatch ?s b'"
    by (simp add: s' emit_def)
  from closed_batch_run [OF closed le, of F txs'] cnt
  show "\<not> isBatchOpen (run F s' txs') b'"
    and "assetCountInBatch (run F s' txs') b' = assetCountInBatch ?s b'"
    by simp_all
qed

theorem closeBatch_irreversible_witness:
  "msg_sender (owner_env 10) = owner (constructor 1) \<and>
   \<not> isBatchOpen (constructor 1) 5 \<and>
   closeBatch (constructor 1) (owner_env 10) 5 = Inl BatchClosedOrInvalid \<and>
   closeBatch (run toy_fhevm (constructor 1) []) (owner_env 10) 1 =
     Inr (transact toy_fhevm (constructor 1) (owner_env 10, CloseBatch 1)) \<and>
   \<not> isBatchOpen (run toy_fhevm (transact toy_fhevm (constructor 1) (owner_env 10, CloseBatch 1))
        [(owner_env 20, AddProvider 2), (provider_env 100, SubmitAsset 5 6 7 8)]) 1 \<and>
   assetCountInBatch (run toy_fhevm (transact toy_fhevm (constructor 1) (owner_env 10, CloseBatch 1))
        [(owner_env 20, AddProvider 2), (provider_env 100, SubmitAsset 5 6 7 8)]) 1 = 0"
proof -
  have a: "msg_sender (owner_env 10) = owner (constructor 1)"
    by (simp add: eval_defs)
  have b: "\<not> isBatchOpen (constructor 1) 5"
    by (simp add: eval_defs)
  have c: "closeBatch (run toy_fhevm (constructor 1) []) (owner_env 10) 1 =
     Inr (transact toy_fhevm (constructor 1) (owner_env 10, CloseBatch 1))"
    by (simp add: eval_defs)
  have d: "assetCountInBatch (run toy_fhevm (constructor 1) []) 1 = 0"
    by (simp add: eval_defs)
  from closeBatch_irreversible [of "owner_env 10" "constructor 1" 5 toy_fhevm 1 "[]" "owner_env 10" 1
      "transact toy_fhevm (constructor 1) (owner_env 10, CloseBatch 1)"
      "[(owner_env 20, AddProvider 2), (provider_env 100, SubmitAsset 5 6 7 8)]"] a b c d
  show ?thesis by simp
qed

text \<open>
  Claim C8. In every state reached from the constructor, the indices of batch \<open>b\<close> that hold
  a record are exactly those below \<open>assetCountInBatch b\<close>. A successful \<open>submitAsset\<close> writes
  the record at the index equal to the current count of the current batch, a slot that was
  free, and moves that count up by one without wrap-around; it writes no other slot and no
  other count. A record that is stored stays as it is under every later sequence of
  transactions.
\<close>

theorem sequential_asset_indices:
  "(batchAssets (run F (constructor d) txs) b i \<noteq> None
      \<longleftrightarrow> i < assetCountInBatch (run F (constructor d) txs) b) \<and>
   (submitAsset (run F (constructor d) txs) e area health carbon biodiversity = Inr s' \<longrightarrow>
      batchAssets (run F (constructor d) txs) (currentBatchId (run F (constructor d) txs))
        (assetCountInBatch (run F (constructor d) txs) (currentBatchId (run F (constructor d) txs))) = None \<and>
      batchAssets s' = (batchAssets (run F (constructor d) txs))
        (currentBatchId (run F (constructor d) txs) :=
           (batchAssets (run F (constructor d) txs) (currentBatchId (run F (constructor d) txs)))
           (assetCountInBatch (run F (constructor d) txs) (currentBatchId (run F (constructor d) txs)) \<mapsto>
              \<lparr>encryptedArea = area, encryptedHealthIndex = health,
               encryptedCarbonSequestration = carbon, encryptedBiodiversityIndex = biodiversity,
               ownerAddress = msg_sender e\<rparr>)) \<and>
      assetCountInBatch s' = (assetCountInBatch (run F (constructor d) txs))
        (currentBatchId (run F (constructor d) txs) :=
           assetCountInBatch (run F (constructor d) txs) (currentBatchId (run F (constructor d) txs)) + 1) \<and>
      unat (assetCountInBatch s' (currentBatchId (run F (constructor d) txs))) =
        Suc (unat (assetCountInBatch (run F (constructor d) txs) (currentBatchId (run F (constructor d) txs))))) \<and>
   (batchAssets (run F (constructor d) txs) b i = Some a \<longrightarrow>
      batchAssets (run F (run F (constructor d) txs) txs') b i = Some a)"
proof (intro conjI impI)
  let ?s = "run F (constructor d) txs"
  have wf: "batches_wf ?s"
    by (rule batches_wf_reachable)
  then show "batchAssets ?s b i \<noteq> None \<longleftrightarrow> i < assetCountInBatch ?s b"
    by (simp add: batches_wf_def)
  from wf show "batchAssets ?s (currentBatchId ?s) (assetCountInBatch ?s (currentBatchId ?s)) = None"
    by (rule batches_wf_next_free)
  {
    assume ok: "submitAsset ?s e area health carbon biodiversity = Inr s'"
    then obtain n where n: "checked_add (assetCountInBatch ?s (currentBatchId ?s)) 1 = Some n"
      and s': "s' = emit (AssetSubmitted (msg_sender e) (currentBatchId ?s) (assetCountInBatch ?s (currentBatchId ?s)))
         (?s\<lparr>batchAssets := (batchAssets ?s)(currentBatchId ?s := (batchAssets ?s (currentBatchId ?s))
              (assetCountInBatch ?s (currentBatchId ?s) \<mapsto>
                 \<lparr>encryptedArea = area, encryptedHealthIndex = health,
                  encryptedCarbonSequestration = carbon, encryptedBiodiversityIndex = biodiversity,
                  ownerAddress = msg_sender e\<rparr>)),
             assetCountInBatch := (assetCountInBatch ?s)(currentBatchId ?s := n),
             lastSubmissionTime := (lastSubmissionTime ?s)(msg_sender e := block_timestamp e)\<rparr>)"
      by (auto simp: submitAsset_def Let_def split: option.splits if_splits)
    show "batchAssets s' = (batchAssets ?s)(currentBatchId ?s := (batchAssets ?s (currentBatchId ?s))
              (assetCountInBatch ?s (currentBatchId ?s) \<mapsto>
                 \<lparr>encryptedArea = area, encryptedHealthIndex = health,
                  encryptedCarbonSequestration = carbon, encryptedBiodiversityIndex = biodiversity,
                  ownerAddress = msg_sender e\<rparr>))"
      by (simp add: s' emit_def)
    show "assetCountInBatch s' = (assetCountInBatch ?s)
        (currentBatchId ?s := assetCountInBatch ?s (currentBatchId ?s) + 1)"
      using checked_add_SomeD(1) [OF n] by (simp add: s' emit_def)
    show "unat (assetCountInBatch s' (currentBatchId ?s)) =
        Suc (unat (assetCountInBatch ?s (currentBatchId ?s)))"
      using checked_add_SomeD(2) [OF n] by (simp add: s' emit_def)
  }
  {
    assume "batchAssets ?s b i = Some a"
    with wf show "batchAssets (run F ?s txs') b i = Some a"
      by (rule batchAssets_kept_run)
  }
qed

theorem sequential_asset_indices_witness:
  "0 < assetCountInBatch
         (run toy_fhevm (constructor 1) [(owner_env 20, AddProvider 2), (provider_env 100, SubmitAsset 5 6 7 8)]) 1 \<and>
   batchAssets
       (run toy_fhevm (constructor 1) [(owner_env 20, AddProvider 2), (provider_env 100, SubmitAsset 5 6 7 8)]) 1 0 =
     Some \<lparr>encryptedArea = 5, encryptedHealthIndex = 6, encryptedCarbonSequestration = 7,
           encryptedBiodiversityIndex = 8, ownerAddress = 2\<rparr> \<and>
   submitAsset
       (run toy_fhevm (constructor 1) [(owner_env 20, AddProvider 2), (provider_env 100, SubmitAsset 5 6 7 8)])
       (provider_env 200) 9 10 11 12 =
     Inr (transact toy_fhevm
       (run toy_fhevm (constructor 1) [(owner_env 20, AddProvider 2), (provider_env 100, SubmitAsset 5 6 7 8)])
       (provider_env 200, SubmitAsset 9 10 11 12)) \<and>
   unat (assetCountInBatch (transact toy_fhevm
       (run toy_fhevm (constructor 1) [(owner_env 20, AddProvider 2), (provider_env 100, SubmitAsset 5 6 7 8)])
       (provider_env 200, SubmitAsset 9 10 11 12)) 1) = 2 \<and>
   batchAssets (run toy_fhevm
       (run toy_fhevm (constructor 1) [(owner_env 20, AddProvider 2), (provider_env 100, SubmitAsset 5 6 7 8)])
       [(provider_env 200, SubmitAsset 9 10 11 12), (owner_env 300, CloseBatch 1)]) 1 0 =
     Some \<lparr>encryptedArea = 5, encryptedHealthIndex = 6, encryptedCarbonSequestration = 7,
           encryptedBiodiversityIndex = 8, ownerAddress = 2\<rparr>"
proof -
  let ?s = "run toy_fhevm (constructor 1) [(owner_env 20, AddProvider 2), (provider_env 100, SubmitAsset 5 6 7 8)]"
  let ?a = "\<lparr>encryptedArea = 5, encryptedHealthIndex = 6, encryptedCarbonSequestration = 7,
           encryptedBiodiversityIndex = 8, ownerAddress = 2\<rparr> :: AssetData"
  have a: "batchAssets ?s 1 0 = Some ?a"
    by (simp add: eval_defs)
  have b: "submitAsset ?s (provider_env 200) 9 10 11 12 =
      Inr (transact toy_fhevm ?s (provider_env 200, SubmitAsset 9 10 11 12))"
    by (simp add: eval_defs)
  have c: "currentBatchId ?s = 1 \<and> assetCountInBatch ?s 1 = 1"
    by (simp add: eval_defs)
  from sequential_asset_indices [of toy_fhevm 1
      "[(owner_env 20, AddProvider 2), (provider_env 100, SubmitAsset 5 6 7 8)]" 1 0
      "provider_env 200" 9 10 11 12
      "transact toy_fhevm ?s (provider_env 200, SubmitAsset 9 10 11 12)" ?a
      "[(provider_env 200, SubmitAsset 9 10 11 12), (owner_env 300, CloseBatch 1)]"] a b c
  show ?thesis by simp
qed

text \<open>
  Claim C9. In a state reached from the constructor, \<open>myCallback\<close> on a request id for which
  no context was stored reverts with \<open>InvalidBatchId\<close>: the absent context reads as batch 0,
  batch 0 has no asset, the loop does not run and \<open>initialized\<close> stays false. The storage
  and the log are unchanged, so no completed event is emitted for that id.
\<close>

theorem myCallback_unknown_request:
  assumes "decryptionContexts (run F (constructor d) txs) r = None"
  shows "myCallback F (run F (constructor d) txs) e r cleartexts prf = Inl InvalidBatchId \<and>
    transact F (run F (constructor d) txs) (e, MyCallback r cleartexts prf) = run F (constructor d) txs"
proof -
  let ?s = "run F (constructor d) txs"
  have ctx: "context_at ?s r = zeroContext"
    using assms by (simp add: context_at_def)
  have "assetCountInBatch ?s 0 = 0"
    using batches_wf_reachable [of F d txs] by (auto simp: batches_wf_def)
  then have "aggregate F ?s 0 = (0, 0, False)"
    by (rule aggregate_empty)
  then have "myCallback F ?s e r cleartexts prf = Inl InvalidBatchId"
    by (simp add: myCallback_def ctx zeroContext_def)
  then show ?thesis
    by (simp add: transact_def)
qed

theorem myCallback_unknown_request_witness:
  "decryptionContexts (run toy_fhevm (constructor 1) [(owner_env 20, AddProvider 2)]) 7 = None \<and>
   myCallback toy_fhevm (run toy_fhevm (constructor 1) [(owner_env 20, AddProvider 2)])
     (user_env 30 0) 7 [] [1] = Inl InvalidBatchId"
proof -
  have a: "decryptionContexts (run toy_fhevm (constructor 1) [(owner_env 20, AddProvider 2)]) 7 = None"
    by (simp add: eval_defs)
  from myCallback_unknown_request [OF a, of "user_env 30 0" "[]" "[1]"] a
  show ?thesis by simp
qed

text \<open>
  Claim C10. A successful \<open>openNewBatch\<close> moves \<open>currentBatchId\<close> up by one (no wrap-around),
  opens the new id and leaves every flag of an earlier batch as it was, so several batches can
  be open together. A batch below \<open>currentBatchId\<close> never receives another asset, whatever
  transactions follow, and while it is still flagged open the owner's \<open>closeBatch\<close> on it
  succeeds.
\<close>

theorem openNewBatch_supersedes:
  "(openNewBatch s e = Inr s1 \<longrightarrow>
      currentBatchId s1 = currentBatchId s + 1 \<and> currentBatchId s < currentBatchId s1 \<and>
      isBatchOpen s1 (currentBatchId s1) \<and> (\<forall>b. isBatchOpen s b \<longrightarrow> isBatchOpen s1 b)) \<and>
   (b < currentBatchId s \<longrightarrow>
      assetCountInBatch (run F s txs) b = assetCountInBatch s b \<and>
      (isBatchOpen (run F s txs) b \<and> msg_sender e' = owner (run F s txs) \<longrightarrow>
         (\<exists>s2. closeBatch (run F s txs) e' b = Inr s2 \<and> \<not> isBatchOpen s2 b)))"
proof (intro conjI impI)
  assume ok: "openNewBatch s e = Inr s1"
  then obtain n where n: "checked_add (currentBatchId s) 1 = Some n"
    and s1: "s1 = emit (BatchOpened n) (s\<lparr>currentBatchId := n, isBatchOpen := (isBatchOpen s)(n := True)\<rparr>)"
    by (auto simp: openNewBatch_def split: option.splits)
  from n show "currentBatchId s1 = currentBatchId s + 1"
    by (simp add: s1 emit_def checked_add_SomeD(1))
  from n show "currentBatchId s < currentBatchId s1"
    by (simp add: s1 emit_def checked_inc_less)
  show "isBatchOpen s1 (currentBatchId s1)"
    by (simp add: s1 emit_def)
  show "\<forall>b. isBatchOpen s b \<longrightarrow> isBatchOpen s1 b"
    by (simp add: s1 emit_def)
next
  assume "b < currentBatchId s"
  then show "assetCountInBatch (run F s txs) b = assetCountInBatch s b"
    using superseded_batch_run [of b s F txs] by simp
next
  assume "isBatchOpen (run F s txs) b \<and> msg_sender e' = owner (run F s txs)"
  then show "\<exists>s2. closeBatch (run F s txs) e' b = Inr s2 \<and> \<not> isBatchOpen s2 b"
    by (simp add: closeBatch_def onlyOwner_def emit_def)
qed

theorem openNewBatch_supersedes_witness:
  "openNewBatch (run toy_fhevm (constructor 1) [(owner_env 10, OpenNewBatch)]) (owner_env 11) =
     Inr (transact toy_fhevm (run toy_fhevm (constructor 1) [(owner_env 10, OpenNewBatch)])
            (owner_env 11, OpenNewBatch)) \<and>
   isBatchOpen (run toy_fhevm (constructor 1) [(owner_env 10, OpenNewBatch)]) 1 \<and>
   isBatchOpen (run toy_fhevm (constructor 1) [(owner_env 10, OpenNewBatch)]) 2 \<and>
   isBatchOpen (transact toy_fhevm (run toy_fhevm (constructor 1) [(owner_env 10, OpenNewBatch)])
            (owner_env 11, OpenNewBatch)) 1 \<and>
   1 < currentBatchId (run toy_fhevm (constructor 1) [(owner_env 10, OpenNewBatch)]) \<and>
   assetCountInBatch (run toy_fhevm (run toy_fhevm (constructor 1) [(owner_env 10, OpenNewBatch)])
      [(owner_env 20, AddProvider 2), (provider_env 100, SubmitAsset 5 6 7 8)]) 1 = 0 \<and>
   assetCountInBatch (run toy_fhevm (run toy_fhevm (constructor 1) [(owner_env 10, OpenNewBatch)])
      [(owner_env 20, AddProvider 2), (provider_env 100, SubmitAsset 5 6 7 8)]) 2 = 1 \<and>
   isBatchOpen (run toy_fhevm (run toy_fhevm (constructor 1) [(owner_env 10, OpenNewBatch)])
      [(owner_env 20, AddProvider 2), (provider_env 100, SubmitAsset 5 6 7 8)]) 1 \<and>
   (\<exists>s2. closeBatch (run toy_fhevm (run toy_fhevm (constructor 1) [(owner_env 10, OpenNewBatch)])
      [(owner_env 20, AddProvider 2), (provider_env 100, SubmitAsset 5 6 7 8)]) (owner_env 200) 1 = Inr s2
      \<and> \<not> isBatchOpen s2 1)"
proof -
  let ?s = "run toy_fhevm (constructor 1) [(owner_env 10, OpenNewBatch)]"
  let ?txs = "[(owner_env 20, AddProvider 2), (provider_env 100, SubmitAsset 5 6 7 8)]"
  have a: "openNewBatch ?s (owner_env 11) = Inr (transact toy_fhevm ?s (owner_env 11, OpenNewBatch))"
    by (simp add: eval_defs)
  have b: "isBatchOpen ?s 1 \<and> isBatchOpen ?s 2 \<and> assetCountInBatch ?s 1 = 0"
    by (simp add: eval_defs)
  have c: "1 < currentBatchId ?s"
    by (simp add: eval_defs)
  have d: "assetCountInBatch (run toy_fhevm ?s ?txs) 2 = 1"
    by (simp add: eval_defs)
  have e: "isBatchOpen (run toy_fhevm ?s ?txs) 1 \<and> msg_sender (owner_env 200) = owner (run toy_fhevm ?s ?txs)"
    by (simp add: eval_defs)
  from openNewBatch_supersedes [of ?s "owner_env 11" "transact toy_fhevm ?s (owner_env 11, OpenNewBatch)"
      1 toy_fhevm ?txs "owner_env 200"] a b c d e
  show ?thesis by simp
qed

text \<open>
  Claim C1. Once \<open>myCallback\<close> has succeeded for a request id, the context of that id is
  processed, and after any further transactions in which the oracle does not hand out the
  same id again, a call of \<open>myCallback\<close> with that id, whatever its payload, proof and caller,
  reverts with \<open>ReplayAttempt\<close>; the storage and the log, and the stored context of the id in
  particular, are as they were after the first success.
\<close>

theorem myCallback_at_most_once:
  assumes "myCallback F s e r cleartexts prf = Inr s1"
    and "\<not> list_ex (issues_request r) txs"
  shows "\<not> processed (context_at s r) \<and> processed (context_at s1 r) \<and>
    myCallback F (run F s1 txs) e' r cleartexts' prf' = Inl ReplayAttempt \<and>
    transact F (run F s1 txs) (e', MyCallback r cleartexts' prf') = run F s1 txs \<and>
    decryptionContexts (run F s1 txs) r = decryptionContexts s1 r"
proof -
  let ?ctx = "(context_at s r)\<lparr>processed := True\<rparr>"
  have before: "\<not> processed (context_at s r)"
    using assms(1) by (auto simp: myCallback_def split: if_splits)
  have ctx1: "decryptionContexts s1 r = Some ?ctx"
    using assms(1) by (rule myCallback_success_context)
  have fresh: "\<forall>tx \<in> set txs. \<not> issues_request r tx"
    using assms(2) by (simp add: list_ex_iff)
  have later: "decryptionContexts (run F s1 txs) r = Some ?ctx"
    by (rule processed_context_run [OF ctx1 _ fresh]) simp
  then have replay: "myCallback F (run F s1 txs) e' r cleartexts' prf' = Inl ReplayAttempt"
    by (simp add: myCallback_def context_at_def)
  then have "transact F (run F s1 txs) (e', MyCallback r cleartexts' prf') = run F s1 txs"
    by (simp add: transact_def)
  with before ctx1 later replay show ?thesis
    by (simp add: context_at_def)
qed

theorem myCallback_at_most_once_witness:
  "myCallback toy_fhevm (run toy_fhevm (constructor 1) pending_txs) (user_env 200 0) 9 cleartexts_5_7 [1] =
     Inr (run toy_fhevm (constructor 1) finalized_txs) \<and>
   \<not> list_ex (issues_request 9)
       [(provider_env 300, SubmitAsset 1 1 1 1), (user_env 300 10, RequestBatchSummaryDecryption 1)] \<and>
   myCallback toy_fhevm
     (run toy_fhevm (run toy_fhevm (constructor 1) finalized_txs)
        [(provider_env 300, SubmitAsset 1 1 1 1), (user_env 300 10, RequestBatchSummaryDecryption 1)])
     (user_env 400 0) 9 cleartexts_5_7 [1] = Inl ReplayAttempt \<and>
   processed (context_at (run toy_fhevm (constructor 1) finalized_txs) 9)"
proof -
  have a: "myCallback toy_fhevm (run toy_fhevm (constructor 1) pending_txs) (user_env 200 0) 9
      cleartexts_5_7 [1] = Inr (run toy_fhevm (constructor 1) finalized_txs)"
    by (simp add: eval_all_defs)
  have b: "\<not> list_ex (issues_request 9)
       [(provider_env 300, SubmitAsset 1 1 1 1), (user_env 300 10, RequestBatchSummaryDecryption 1)]"
    by (simp add: eval_defs)
  from myCallback_at_most_once [OF a b, of "user_env 400 0" cleartexts_5_7 "[1]"] a b
  show ?thesis by simp
qed

text \<open>
  Claim C2, run on the contract. Batch 1 holds one asset whose area handle is the zero
  handle, \<open>(0, 5)\<close>; a decryption request for batch 1 is stored under the id 9 and commits
  to the handles \<open>[0, 5]\<close>. Then the provider submits a second asset \<open>(0, 5)\<close> into batch 1.
  At the callback the loop seeds from the first asset, finds the area accumulator still
  uninitialised at index 1 and seeds again from the second asset, so the recomputed handles
  are \<open>[0, 5]\<close> again, no \<open>FHE.add\<close> is called, and the commitment is the stored one: the
  callback does not fail with \<open>StateMismatch\<close>, it is accepted, marks the context processed
  and emits \<open>DecryptionCompleted\<close>, although an asset entered the batch between the request
  and the callback.
\<close>

theorem stale_callback_accepted_after_reseed:
  "context_at (run toy_fhevm (constructor 1) zero_pending_txs) 9 =
     \<lparr>batchId = 1, stateHash = hashCiphertexts toy_fhevm [0, 5], processed = False\<rparr> \<and>
   assetCountInBatch (run toy_fhevm (constructor 1) zero_pending_txs) 1 = 1 \<and>
   submitAsset (run toy_fhevm (constructor 1) zero_pending_txs) (provider_env 200) 0 1 5 1 =
     Inr (run toy_fhevm (constructor 1) zero_stale_txs) \<and>
   assetCountInBatch (run toy_fhevm (constructor 1) zero_stale_txs) 1 = 2 \<and>
   currentCts toy_fhevm (run toy_fhevm (constructor 1) zero_stale_txs) 1 = [0, 5] \<and>
   myCallback toy_fhevm (run toy_fhevm (constructor 1) zero_stale_txs) (user_env 300 0) 9
       cleartexts_5_7 [1] \<noteq> Inl StateMismatch \<and>
   myCallback toy_fhevm (run toy_fhevm (constructor 1) zero_stale_txs) (user_env 300 0) 9
       cleartexts_5_7 [1] =
     Inr (transact toy_fhevm (run toy_fhevm (constructor 1) zero_stale_txs)
            (user_env 300 0, MyCallback 9 cleartexts_5_7 [1])) \<and>
   processed (context_at (transact toy_fhevm (run toy_fhevm (constructor 1) zero_stale_txs)
            (user_env 300 0, MyCallback 9 cleartexts_5_7 [1])) 9) \<and>
   events (transact toy_fhevm (run toy_fhevm (constructor 1) zero_stale_txs)
            (user_env 300 0, MyCallback 9 cleartexts_5_7 [1])) =
     events (run toy_fhevm (constructor 1) zero_stale_txs) @ [DecryptionCompleted 9 1 5 7]"
  by (simp add: eval_all_defs zero_pending_txs_def zero_stale_txs_def)

text \<open>
  Claim C3. \<open>myCallback\<close> checks in this order: a processed context gives \<open>ReplayAttempt\<close>
  whatever else holds; otherwise a recomputed commitment that differs from the stored one
  gives \<open>StateMismatch\<close> whatever the proof; otherwise a proof that \<open>FHE.checkSignatures\<close>
  rejects reverts the call. A successful call passed all three checks, and its only effects
  are to mark the context processed and to emit \<open>DecryptionCompleted\<close> with the decoded
  totals. A call that reverts leaves the storage, the log and the processed flag as they were.
\<close>

theorem myCallback_check_order:
  "(processed (context_at s1 r1) \<longrightarrow> myCallback F1 s1 e1 r1 c1 p1 = Inl ReplayAttempt) \<and>
   (\<not> processed (context_at s2 r2) \<and> loop_initialized F2 s2 (batchId (context_at s2 r2)) \<and>
    currentHash F2 s2 (batchId (context_at s2 r2)) \<noteq> stateHash (context_at s2 r2) \<longrightarrow>
      myCallback F2 s2 e2 r2 c2 p2 = Inl StateMismatch) \<and>
   (\<not> processed (context_at s3 r3) \<and> loop_initialized F3 s3 (batchId (context_at s3 r3)) \<and>
    currentHash F3 s3 (batchId (context_at s3 r3)) = stateHash (context_at s3 r3) \<and>
    \<not> FHE_checkSignatures F3 r3 c3 p3 \<longrightarrow>
      myCallback F3 s3 e3 r3 c3 p3 = Inl CheckSignaturesReverted) \<and>
   (myCallback F4 s4 e4 r4 c4 p4 = Inr s4' \<longrightarrow>
      \<not> processed (context_at s4 r4) \<and>
      currentHash F4 s4 (batchId (context_at s4 r4)) = stateHash (context_at s4 r4) \<and>
      FHE_checkSignatures F4 r4 c4 p4 \<and>
      processed (context_at s4' r4) \<and>
      (\<exists>a c. abi_decode_uint32_pair c4 = Some (a, c) \<and>
         s4' = s4\<lparr>decryptionContexts := (decryptionContexts s4)
                     (r4 \<mapsto> (context_at s4 r4)\<lparr>processed := True\<rparr>),
                   events := events s4 @
                     [DecryptionCompleted r4 (batchId (context_at s4 r4)) (ucast a) (ucast c)]\<rparr>)) \<and>
   (myCallback F5 s5 e5 r5 c5 p5 = Inl err5 \<longrightarrow>
      transact F5 s5 (e5, MyCallback r5 c5 p5) = s5 \<and>
      processed (context_at (transact F5 s5 (e5, MyCallback r5 c5 p5)) r5) = processed (context_at s5 r5))"
proof (intro conjI impI)
  assume "processed (context_at s1 r1)"
  then show "myCallback F1 s1 e1 r1 c1 p1 = Inl ReplayAttempt"
    by (simp add: myCallback_checks)
next
  assume "\<not> processed (context_at s2 r2) \<and> loop_initialized F2 s2 (batchId (context_at s2 r2)) \<and>
    currentHash F2 s2 (batchId (context_at s2 r2)) \<noteq> stateHash (context_at s2 r2)"
  then show "myCallback F2 s2 e2 r2 c2 p2 = Inl StateMismatch"
    by (simp add: myCallback_checks)
next
  assume "\<not> processed (context_at s3 r3) \<and> loop_initialized F3 s3 (batchId (context_at s3 r3)) \<and>
    currentHash F3 s3 (batchId (context_at s3 r3)) = stateHash (context_at s3 r3) \<and>
    \<not> FHE_checkSignatures F3 r3 c3 p3"
  then show "myCallback F3 s3 e3 r3 c3 p3 = Inl CheckSignaturesReverted"
    by (simp add: myCallback_checks)
next
  assume ok: "myCallback F4 s4 e4 r4 c4 p4 = Inr s4'"
  then show "\<not> processed (context_at s4 r4)"
    and "currentHash F4 s4 (batchId (context_at s4 r4)) = stateHash (context_at s4 r4)"
    and "FHE_checkSignatures F4 r4 c4 p4"
    by (auto simp: myCallback_checks split: if_splits)
  from ok show "\<exists>a c. abi_decode_uint32_pair c4 = Some (a, c) \<and>
         s4' = s4\<lparr>decryptionContexts := (decryptionContexts s4)
                     (r4 \<mapsto> (context_at s4 r4)\<lparr>processed := True\<rparr>),
                   events := events s4 @
                     [DecryptionCompleted r4 (batchId (context_at s4 r4)) (ucast a) (ucast c)]\<rparr>"
    by (auto simp: myCallback_checks split: if_splits option.splits)
  from myCallback_success_context [OF ok] show "processed (context_at s4' r4)"
    by (simp add: context_at_def)
next
  assume "myCallback F5 s5 e5 r5 c5 p5 = Inl err5"
  then show "transact F5 s5 (e5, MyCallback r5 c5 p5) = s5"
    by (simp add: transact_def)
  then show "processed (context_at (transact F5 s5 (e5, MyCallback r5 c5 p5)) r5) = processed (context_at s5 r5)"
    by simp
qed

theorem myCallback_check_order_witness:
  "processed (context_at (run toy_fhevm (constructor 1) finalized_txs) 9) \<and>
   myCallback toy_fhevm (run toy_fhevm (constructor 1) finalized_txs) (user_env 300 0) 9 cleartexts_5_7 [1] =
     Inl ReplayAttempt \<and>
   FHE_checkSignatures toy_fhevm 9 cleartexts_5_7 [1] \<and>
   myCallback toy_fhevm (run toy_fhevm (constructor 1) stale_txs) (user_env 300 0) 9 cleartexts_5_7 [1] =
     Inl StateMismatch \<and>
   \<not> FHE_checkSignatures toy_fhevm 9 cleartexts_5_7 [0] \<and>
   myCallback toy_fhevm (run toy_fhevm (constructor 1) pending_txs) (user_env 300 0) 9 cleartexts_5_7 [0] =
     Inl CheckSignaturesReverted \<and>
   transact toy_fhevm (run toy_fhevm (constructor 1) pending_txs)
       (user_env 300 0, MyCallback 9 cleartexts_5_7 [0]) = run toy_fhevm (constructor 1) pending_txs \<and>
   myCallback toy_fhevm (run toy_fhevm (constructor 1) pending_txs) (user_env 200 0) 9 cleartexts_5_7 [1] =
     Inr (run toy_fhevm (constructor 1) finalized_txs) \<and>
   events (run toy_fhevm (constructor 1) finalized_txs) =
     events (run toy_fhevm (constructor 1) pending_txs) @ [DecryptionCompleted 9 1 5 7]"
proof -
  let ?fin = "run toy_fhevm (constructor 1) finalized_txs"
  let ?stale = "run toy_fhevm (constructor 1) stale_txs"
  let ?pend = "run toy_fhevm (constructor 1) pending_txs"
  have a: "processed (context_at ?fin 9)"
    by (simp add: eval_all_defs)
  have b: "\<not> processed (context_at ?stale 9) \<and> loop_initialized toy_fhevm ?stale (batchId (context_at ?stale 9)) \<and>
    currentHash toy_fhevm ?stale (batchId (context_at ?stale 9)) \<noteq> stateHash (context_at ?stale 9)"
    by (simp add: eval_all_defs)
  have c: "\<not> processed (context_at ?pend 9) \<and> loop_initialized toy_fhevm ?pend (batchId (context_at ?pend 9)) \<and>
    currentHash toy_fhevm ?pend (batchId (context_at ?pend 9)) = stateHash (context_at ?pend 9) \<and>
    \<not> FHE_checkSignatures toy_fhevm 9 cleartexts_5_7 [0]"
    by (simp add: eval_all_defs)
  have d: "myCallback toy_fhevm ?pend (user_env 200 0) 9 cleartexts_5_7 [1] = Inr ?fin"
    by (simp add: eval_all_defs)
  have e: "events ?fin = events ?pend @ [DecryptionCompleted 9 1 5 7]"
    by (simp add: eval_all_defs)
  from myCallback_check_order [of ?fin 9 toy_fhevm "user_env 300 0" cleartexts_5_7 "[1]"
      ?stale 9 toy_fhevm "user_env 300 0" cleartexts_5_7 "[1]"
      ?pend 9 toy_fhevm cleartexts_5_7 "[0]" "user_env 300 0"
      toy_fhevm ?pend "user_env 200 0" 9 cleartexts_5_7 "[1]" ?fin
      toy_fhevm ?pend "user_env 300 0" 9 cleartexts_5_7 "[0]" CheckSignaturesReverted] a b c d
  have "myCallback toy_fhevm ?fin (user_env 300 0) 9 cleartexts_5_7 [1] = Inl ReplayAttempt"
    and "myCallback toy_fhevm ?stale (user_env 300 0) 9 cleartexts_5_7 [1] = Inl StateMismatch"
    and r3: "myCallback toy_fhevm ?pend (user_env 300 0) 9 cleartexts_5_7 [0] = Inl CheckSignaturesReverted"
    and "FHE_checkSignatures toy_fhevm 9 cleartexts_5_7 [1]"
    and r5: "myCallback toy_fhevm ?pend (user_env 300 0) 9 cleartexts_5_7 [0] = Inl CheckSignaturesReverted \<longrightarrow>
      transact toy_fhevm ?pend (user_env 300 0, MyCallback 9 cleartexts_5_7 [0]) = ?pend \<and>
      processed (context_at (transact toy_fhevm ?pend (user_env 300 0, MyCallback 9 cleartexts_5_7 [0])) 9) =
        processed (context_at ?pend 9)"
    by blast+
  with a c d e show ?thesis by simp
qed

text \<open>
  Claim C4, as the contract has it. While the pause flag is set, \<open>submitAsset\<close>,
  \<open>requestBatchSummaryDecryption\<close> and \<open>openNewBatch\<close> are rejected (with \<open>PausedError\<close> once
  the role check of the caller has passed). \<open>transferOwnership\<close>, \<open>addProvider\<close>,
  \<open>removeProvider\<close>, \<open>closeBatch\<close> (on an open batch), \<open>setCooldownSeconds\<close> (with a positive
  value) and \<open>setPaused\<close> carry no pause check and succeed for the owner, and \<open>myCallback\<close>
  does not read the flag: it does what it does on the same storage with the flag cleared.
\<close>

theorem pause_gate:
  "paused s \<longrightarrow>
     (\<exists>err. submitAsset s e area health carbon biodiversity = Inl err) \<and>
     requestBatchSummaryDecryption F s e b = Inl PausedError \<and>
     (\<exists>err. openNewBatch s e = Inl err) \<and>
     (isProvider s (msg_sender e1) \<longrightarrow>
        submitAsset s e1 area health carbon biodiversity = Inl PausedError) \<and>
     (msg_sender e2 = owner s \<longrightarrow>
        openNewBatch s e2 = Inl PausedError \<and>
        transferOwnership s e2 a =
          Inr (s\<lparr>events := events s @ [OwnershipTransferred (owner s) a], owner := a\<rparr>) \<and>
        addProvider s e2 a =
          Inr (s\<lparr>isProvider := (isProvider s)(a := True), events := events s @ [ProviderAdded a]\<rparr>) \<and>
        removeProvider s e2 a =
          Inr (s\<lparr>isProvider := (isProvider s)(a := False), events := events s @ [ProviderRemoved a]\<rparr>) \<and>
        (isBatchOpen s b2 \<longrightarrow>
           closeBatch s e2 b2 =
             Inr (s\<lparr>isBatchOpen := (isBatchOpen s)(b2 := False), events := events s @ [BatchClosed b2]\<rparr>)) \<and>
        (0 < n \<longrightarrow>
           setCooldownSeconds s e2 n =
             Inr (s\<lparr>cooldownSeconds := n,
                    events := events s @ [CooldownSecondsChanged (cooldownSeconds s) n]\<rparr>)) \<and>
        setPaused s e2 True =
          Inr (s\<lparr>paused := True, events := events s @ [Paused (msg_sender e2)]\<rparr>) \<and>
        setPaused s e2 False =
          Inr (s\<lparr>paused := False, events := events s @ [Unpaused (msg_sender e2)]\<rparr>)) \<and>
     myCallback F s e r cleartexts prf =
       (case myCallback F (s\<lparr>paused := False\<rparr>) e r cleartexts prf of
          Inl err \<Rightarrow> Inl err | Inr s' \<Rightarrow> Inr (s'\<lparr>paused := True\<rparr>))"
proof (intro impI conjI)
  assume p: "paused s"
  then show "\<exists>err. submitAsset s e area health carbon biodiversity = Inl err"
    by (simp add: submitAsset_def onlyProvider_def whenNotPaused_def)
  from p show "requestBatchSummaryDecryption F s e b = Inl PausedError"
    by (simp add: requestBatchSummaryDecryption_def whenNotPaused_def)
  from p show "\<exists>err. openNewBatch s e = Inl err"
    by (simp add: openNewBatch_def onlyOwner_def whenNotPaused_def)
  {
    assume "isProvider s (msg_sender e1)"
    with p show "submitAsset s e1 area health carbon biodiversity = Inl PausedError"
      by (simp add: submitAsset_def onlyProvider_def whenNotPaused_def)
  }
  {
    assume o: "msg_sender e2 = owner s"
    with p show "openNewBatch s e2 = Inl PausedError"
      by (simp add: openNewBatch_def onlyOwner_def whenNotPaused_def)
    from o show "transferOwnership s e2 a =
          Inr (s\<lparr>events := events s @ [OwnershipTransferred (owner s) a], owner := a\<rparr>)"
      by (simp add: transferOwnership_def onlyOwner_def emit_def)
    from o show "addProvider s e2 a =
          Inr (s\<lparr>isProvider := (isProvider s)(a := True), events := events s @ [ProviderAdded a]\<rparr>)"
      by (simp add: addProvider_def onlyOwner_def emit_def)
    from o show "removeProvider s e2 a =
          Inr (s\<lparr>isProvider := (isProvider s)(a := False), events := events s @ [ProviderRemoved a]\<rparr>)"
      by (simp add: removeProvider_def onlyOwner_def emit_def)
    {
      assume "isBatchOpen s b2"
      with o show "closeBatch s e2 b2 =
             Inr (s\<lparr>isBatchOpen := (isBatchOpen s)(b2 := False), events := events s @ [BatchClosed b2]\<rparr>)"
        by (simp add: closeBatch_def onlyOwner_def emit_def)
    }
    {
      assume "0 < n"
      with o show "setCooldownSeconds s e2 n =
             Inr (s\<lparr>cooldownSeconds := n,
                    events := events s @ [CooldownSecondsChanged (cooldownSeconds s) n]\<rparr>)"
        by (simp add: setCooldownSeconds_def onlyOwner_def emit_def)
    }
    from o show "setPaused s e2 True =
          Inr (s\<lparr>paused := True, events := events s @ [Paused (msg_sender e2)]\<rparr>)"
      by (simp add: setPaused_def onlyOwner_def emit_def)
    from o show "setPaused s e2 False =
          Inr (s\<lparr>paused := False, events := events s @ [Unpaused (msg_sender e2)]\<rparr>)"
      by (simp add: setPaused_def onlyOwner_def emit_def)
  }
  have ctx: "context_at (s\<lparr>paused := False\<rparr>) r = context_at s r"
    by (simp add: context_at_def)
  show "myCallback F s e r cleartexts prf =
       (case myCallback F (s\<lparr>paused := False\<rparr>) e r cleartexts prf of
          Inl err \<Rightarrow> Inl err | Inr s' \<Rightarrow> Inr (s'\<lparr>paused := True\<rparr>))"
    using p
    by (simp add: myCallback_checks ctx loop_initialized_def currentHash_def currentCts_def
        aggregate_paused_update split: option.splits prod.splits)
qed

theorem pause_gate_witness:
  "paused (run toy_fhevm (constructor 1) paused_txs) \<and>
   isProvider (run toy_fhevm (constructor 1) paused_txs) (msg_sender (provider_env 300)) \<and>
   msg_sender (owner_env 300) = owner (run toy_fhevm (constructor 1) paused_txs) \<and>
   isBatchOpen (run toy_fhevm (constructor 1) paused_txs) 1 \<and>
   (0 :: uint256) < 30 \<and>
   submitAsset (run toy_fhevm (constructor 1) paused_txs) (provider_env 300) 1 1 1 1 = Inl PausedError \<and>
   requestBatchSummaryDecryption toy_fhevm (run toy_fhevm (constructor 1) paused_txs) (user_env 300 11) 1 =
     Inl PausedError \<and>
   openNewBatch (run toy_fhevm (constructor 1) paused_txs) (owner_env 300) = Inl PausedError \<and>
   isProvider (transact toy_fhevm (run toy_fhevm (constructor 1) paused_txs) (owner_env 300, AddProvider 7)) 7 \<and>
   \<not> isBatchOpen (transact toy_fhevm (run toy_fhevm (constructor 1) paused_txs) (owner_env 300, CloseBatch 1)) 1 \<and>
   cooldownSeconds (transact toy_fhevm (run toy_fhevm (constructor 1) paused_txs)
       (owner_env 300, SetCooldownSeconds 30)) = 30 \<and>
   \<not> paused (transact toy_fhevm (run toy_fhevm (constructor 1) paused_txs) (owner_env 300, SetPaused False))"
proof -
  let ?s = "run toy_fhevm (constructor 1) paused_txs"
  have a: "paused ?s"
    by (simp add: eval_all_defs)
  have b: "isProvider ?s (msg_sender (provider_env 300))"
    by (simp add: eval_all_defs)
  have c: "msg_sender (owner_env 300) = owner ?s"
    by (simp add: eval_all_defs)
  have d: "isBatchOpen ?s 1"
    by (simp add: eval_all_defs)
  have e: "(0 :: uint256) < 30"
    by simp
  from pause_gate [of ?s "user_env 300 11" 1 1 1 1 toy_fhevm 1 "provider_env 300" "owner_env 300" 7
      1 30 9 cleartexts_5_7 "[1]"] a b c d e
  have "submitAsset ?s (provider_env 300) 1 1 1 1 = Inl PausedError"
    and "requestBatchSummaryDecryption toy_fhevm ?s (user_env 300 11) 1 = Inl PausedError"
    and "openNewBatch ?s (owner_env 300) = Inl PausedError"
    and "addProvider ?s (owner_env 300) 7 =
          Inr (?s\<lparr>isProvider := (isProvider ?s)(7 := True), events := events ?s @ [ProviderAdded 7]\<rparr>)"
    and "closeBatch ?s (owner_env 300) 1 =
          Inr (?s\<lparr>isBatchOpen := (isBatchOpen ?s)(1 := False), events := events ?s @ [BatchClosed 1]\<rparr>)"
    and "setCooldownSeconds ?s (owner_env 300) 30 =
          Inr (?s\<lparr>cooldownSeconds := 30,
                 events := events ?s @ [CooldownSecondsChanged (cooldownSeconds ?s) 30]\<rparr>)"
    and "setPaused ?s (owner_env 300) False =
          Inr (?s\<lparr>paused := False, events := events ?s @ [Unpaused (msg_sender (owner_env 300))]\<rparr>)"
    by blast+
  with a b c d e show ?thesis
    by (simp add: transact_def)
qed

text \<open>
  Claim C4 as it is worded, with every operation but \<open>closeBatch\<close>, \<open>setCooldownSeconds\<close>
  and \<open>setPaused\<close> rejected under pause, does not hold: here the contract is paused and
  \<open>addProvider\<close>, \<open>removeProvider\<close>, \<open>transferOwnership\<close> and \<open>myCallback\<close> succeed.
\<close>

theorem pause_gate_counterexample:
  "paused (run toy_fhevm (constructor 1) paused_txs) \<and>
   \<not> isl (addProvider (run toy_fhevm (constructor 1) paused_txs) (owner_env 160) 7) \<and>
   \<not> isl (removeProvider (run toy_fhevm (constructor 1) paused_txs) (owner_env 160) 2) \<and>
   \<not> isl (transferOwnership (run toy_fhevm (constructor 1) paused_txs) (owner_env 160) 7) \<and>
   \<not> isl (myCallback toy_fhevm (run toy_fhevm (constructor 1) paused_txs) (user_env 200 0) 9 cleartexts_5_7 [1])"
  by (simp add: eval_all_defs)

text \<open>
  Claim C6. A successful \<open>submitAsset\<close> or \<open>requestBatchSummaryDecryption\<close> implies that
  \<open>block.timestamp\<close> is at least the caller's last time for that action plus
  \<open>cooldownSeconds\<close> (as numbers, without wrap-around), and sets that last time, and no other
  timer, to \<open>block.timestamp\<close>. A call that reverts for any reason leaves the whole storage,
  the timers included, as it was; a call before the cooldown has elapsed reverts.
\<close>

theorem cooldown_guard:
  "(submitAsset s1 e1 area health carbon biodiversity = Inr s1' \<longrightarrow>
      unat (lastSubmissionTime s1 (msg_sender e1)) + unat (cooldownSeconds s1)
        \<le> unat (block_timestamp e1) \<and>
      lastSubmissionTime s1' = (lastSubmissionTime s1)(msg_sender e1 := block_timestamp e1) \<and>
      lastDecryptionRequestTime s1' = lastDecryptionRequestTime s1) \<and>
   (requestBatchSummaryDecryption F s2 e2 b = Inr s2' \<longrightarrow>
      unat (lastDecryptionRequestTime s2 (msg_sender e2)) + unat (cooldownSeconds s2)
        \<le> unat (block_timestamp e2) \<and>
      lastDecryptionRequestTime s2' =
        (lastDecryptionRequestTime s2)(msg_sender e2 := block_timestamp e2) \<and>
      lastSubmissionTime s2' = lastSubmissionTime s2) \<and>
   (dispatch F s3 e3 call3 = Inl err3 \<longrightarrow> transact F s3 (e3, call3) = s3) \<and>
   (unat (block_timestamp e4) < unat (lastSubmissionTime s4 (msg_sender e4)) + unat (cooldownSeconds s4) \<longrightarrow>
      (\<exists>err. submitAsset s4 e4 area4 health4 carbon4 biodiversity4 = Inl err)) \<and>
   (unat (block_timestamp e5) < unat (lastDecryptionRequestTime s5 (msg_sender e5)) + unat (cooldownSeconds s5) \<longrightarrow>
      (\<exists>err. requestBatchSummaryDecryption F s5 e5 b5 = Inl err))"
proof (intro conjI impI)
  assume ok: "submitAsset s1 e1 area health carbon biodiversity = Inr s1'"
  then have cd: "respectCooldown s1 e1 (msg_sender e1) (lastSubmissionTime s1) = None"
    by (auto simp: submitAsset_def split: option.splits if_splits)
  then show "unat (lastSubmissionTime s1 (msg_sender e1)) + unat (cooldownSeconds s1)
        \<le> unat (block_timestamp e1)"
    by (rule respectCooldown_NoneD)
  from ok show "lastSubmissionTime s1' = (lastSubmissionTime s1)(msg_sender e1 := block_timestamp e1)"
    by (auto simp: submitAsset_def emit_def Let_def split: option.splits if_splits)
  from ok show "lastDecryptionRequestTime s1' = lastDecryptionRequestTime s1"
    by (auto simp: submitAsset_def emit_def Let_def split: option.splits if_splits)
next
  assume ok: "requestBatchSummaryDecryption F s2 e2 b = Inr s2'"
  then have cd: "respectCooldown s2 e2 (msg_sender e2) (lastDecryptionRequestTime s2) = None"
    by (auto simp: requestBatchSummaryDecryption_def split: option.splits if_splits)
  then show "unat (lastDecryptionRequestTime s2 (msg_sender e2)) + unat (cooldownSeconds s2)
        \<le> unat (block_timestamp e2)"
    by (rule respectCooldown_NoneD)
  from ok show "lastDecryptionRequestTime s2' =
        (lastDecryptionRequestTime s2)(msg_sender e2 := block_timestamp e2)"
    by (auto simp: requestBatchSummaryDecryption_def emit_def Let_def
        split: option.splits if_splits prod.splits)
  from ok show "lastSubmissionTime s2' = lastSubmissionTime s2"
    by (auto simp: requestBatchSummaryDecryption_def emit_def Let_def
        split: option.splits if_splits prod.splits)
next
  assume "dispatch F s3 e3 call3 = Inl err3"
  then show "transact F s3 (e3, call3) = s3"
    by (rule transact_Inl)
next
  assume "unat (block_timestamp e4) < unat (lastSubmissionTime s4 (msg_sender e4)) + unat (cooldownSeconds s4)"
  from respectCooldown_early [of e4 "lastSubmissionTime s4" "msg_sender e4" s4, OF this]
  show "\<exists>err. submitAsset s4 e4 area4 health4 carbon4 biodiversity4 = Inl err"
    by (auto simp: submitAsset_def split: option.splits)
next
  assume "unat (block_timestamp e5) < unat (lastDecryptionRequestTime s5 (msg_sender e5)) + unat (cooldownSeconds s5)"
  from respectCooldown_early [of e5 "lastDecryptionRequestTime s5" "msg_sender e5" s5, OF this]
  show "\<exists>err. requestBatchSummaryDecryption F s5 e5 b5 = Inl err"
    by (auto simp: requestBatchSummaryDecryption_def split: option.splits)
qed

theorem cooldown_guard_witness:
  "submitAsset (run toy_fhevm (constructor 1) [(owner_env 20, AddProvider 2)]) (provider_env 100) 5 6 7 8 =
     Inr (run toy_fhevm (constructor 1) [(owner_env 20, AddProvider 2), (provider_env 100, SubmitAsset 5 6 7 8)]) \<and>
   lastSubmissionTime
     (run toy_fhevm (constructor 1) [(owner_env 20, AddProvider 2), (provider_env 100, SubmitAsset 5 6 7 8)]) 2 = 100 \<and>
   requestBatchSummaryDecryption toy_fhevm
     (run toy_fhevm (constructor 1) [(owner_env 20, AddProvider 2), (provider_env 100, SubmitAsset 5 6 7 8)])
     (user_env 100 9) 1 = Inr (run toy_fhevm (constructor 1) pending_txs) \<and>
   lastDecryptionRequestTime (run toy_fhevm (constructor 1) pending_txs) 3 = 100 \<and>
   dispatch toy_fhevm (run toy_fhevm (constructor 1) pending_txs) (provider_env 120) (SubmitAsset 1 1 1 1) =
     Inl CooldownActive \<and>
   transact toy_fhevm (run toy_fhevm (constructor 1) pending_txs) (provider_env 120, SubmitAsset 1 1 1 1) =
     run toy_fhevm (constructor 1) pending_txs \<and>
   (\<exists>err. requestBatchSummaryDecryption toy_fhevm (run toy_fhevm (constructor 1) pending_txs)
      (user_env 120 11) 1 = Inl err)"
proof -
  let ?s1 = "run toy_fhevm (constructor 1) [(owner_env 20, AddProvider 2)]"
  let ?s2 = "run toy_fhevm (constructor 1) [(owner_env 20, AddProvider 2), (provider_env 100, SubmitAsset 5 6 7 8)]"
  let ?s3 = "run toy_fhevm (constructor 1) pending_txs"
  have a: "submitAsset ?s1 (provider_env 100) 5 6 7 8 = Inr ?s2"
    by (simp add: eval_defs)
  have b: "requestBatchSummaryDecryption toy_fhevm ?s2 (user_env 100 9) 1 = Inr ?s3"
    by (simp add: eval_all_defs)
  have c: "dispatch toy_fhevm ?s3 (provider_env 120) (SubmitAsset 1 1 1 1) = Inl CooldownActive"
    by (simp add: pending_state) (simp add: eval_defs)
  have d: "unat (block_timestamp (provider_env 120))
      < unat (lastSubmissionTime ?s3 (msg_sender (provider_env 120))) + unat (cooldownSeconds ?s3)"
    by (simp add: pending_state) (simp add: eval_defs)
  have e: "unat (block_timestamp (user_env 120 11))
      < unat (lastDecryptionRequestTime ?s3 (msg_sender (user_env 120 11))) + unat (cooldownSeconds ?s3)"
    by (simp add: pending_state) (simp add: eval_defs)
  have f: "lastSubmissionTime ?s1 = (\<lambda>_. 0)" "lastDecryptionRequestTime ?s2 = (\<lambda>_. 0)"
    "msg_sender (provider_env 100) = 2" "block_timestamp (provider_env 100) = 100"
    "msg_sender (user_env 100 9) = 3" "block_timestamp (user_env 100 9) = 100"
    by (simp_all add: eval_defs)
  from cooldown_guard [of ?s1 "provider_env 100" 5 6 7 8 ?s2 toy_fhevm ?s2 "user_env 100 9" 1 ?s3
      ?s3 "provider_env 120" "SubmitAsset 1 1 1 1" CooldownActive
      "provider_env 120" ?s3 1 1 1 1 "user_env 120 11" ?s3 1] a b c d e
  have "lastSubmissionTime ?s2 = (lastSubmissionTime ?s1)(msg_sender (provider_env 100) := block_timestamp (provider_env 100))"
    and "lastDecryptionRequestTime ?s3 = (lastDecryptionRequestTime ?s2)(msg_sender (user_env 100 9) := block_timestamp (user_env 100 9))"
    and "transact toy_fhevm ?s3 (provider_env 120, SubmitAsset 1 1 1 1) = ?s3"
    and "\<exists>err. requestBatchSummaryDecryption toy_fhevm ?s3 (user_env 120 11) 1 = Inl err"
    by blast+
  with a b c f show ?thesis by simp
qed

text \<open>
  Claim C5, run on the contract. Batch 1 holds the assets \<open>(area, carbon) = (0, 5)\<close> and
  \<open>(7, 9)\<close>, the first with the zero handle as its area. The loop tests
  \<open>FHE.isInitialized(totalEncryptedArea)\<close>, not its \<open>initialized\<close> flag, so at index 1 the
  area accumulator is still uninitialised and both accumulators are seeded again: the
  contract aggregates to \<open>(7, 9)\<close>, the second asset alone, and a decryption request commits
  to the hash of these handles. Seeding with the first asset and adding the second, as the
  claim has it, gives \<open>(7, 13)\<close> with the addition of this instance: the carbon handle 5 of
  the first asset is lost.
\<close>

theorem aggregation_reseeds_on_zero_handle:
  "batch_pairs (run toy_fhevm (constructor 1) reseed_txs) 1 = [(0, 5), (7, 9)] \<and>
   spec_aggregate toy_fhevm [(0, 5), (7, 9)] = Some (7, 13) \<and>
   aggregate toy_fhevm (run toy_fhevm (constructor 1) reseed_txs) 1 = (7, 9, True) \<and>
   stateHash (context_at (transact toy_fhevm (run toy_fhevm (constructor 1) reseed_txs)
       (user_env 300 9, RequestBatchSummaryDecryption 1)) 9) = hashCiphertexts toy_fhevm [7, 9] \<and>
   hashCiphertexts toy_fhevm [7, 9] \<noteq> hashCiphertexts toy_fhevm [7, 13]"
  by (simp add: eval_all_defs reseed_txs_def batch_pairs_def upt_two)

end
